theory Spec2Isabelle
  imports Complex_Main "HOL-Library.Char_ord" "HOL-Library.List_Lexorder"
begin

section \<open>Compliance flags (scraping/build\_panel\_cmn.py)\<close>

text \<open>
  \<^verbatim>\<open>fetch_cmn_base\<close> returns one row per (anio, sec\_ejec) with the integer columns
  \<^verbatim>\<open>MAX(CASE WHEN ... THEN 1 ELSE 0 END)\<close>. A row of that frame is a record of its
  columns; \<^verbatim>\<open>build_flags\<close> adds four columns to every row.
\<close>

record cmn_row =
  anio :: int
  sec_ejec :: string
  has_f1 :: int
  has_f2 :: int
  has_f3 :: int
  has_mef :: int
  has_minedu :: int
  has_f1_mef :: int
  has_f2_mef :: int
  has_f3_mef :: int
  has_f1_minedu :: int
  has_f2_minedu :: int
  has_f3_minedu :: int

record cmn_flag_row = cmn_row +
  cumple_v4 :: int
  cumple_mef :: int
  cumple_minedu :: int
  cumple_cross :: int

text \<open>\<^verbatim>\<open>(mask).astype(int)\<close>: a boolean column becomes 0/1.\<close>

definition astype_int :: "bool \<Rightarrow> int" where
  "astype_int b = (if b then 1 else 0)"

definition build_flags_row :: "cmn_row \<Rightarrow> cmn_flag_row" where
  "build_flags_row r =
     (let v4 = astype_int (has_f1 r = 1 \<and> has_f2 r = 1 \<and> has_f3 r = 1);
          mef = astype_int (has_f1_mef r = 1 \<and> has_f2_mef r = 1 \<and> has_f3_mef r = 1);
          minedu = astype_int (has_f1_minedu r = 1 \<and> has_f2_minedu r = 1 \<and> has_f3_minedu r = 1);
          cross = astype_int (v4 = 1 \<and> mef = 0 \<and> minedu = 0)
      in cmn_row.extend r
           \<lparr>cumple_v4 = v4, cumple_mef = mef, cumple_minedu = minedu, cumple_cross = cross\<rparr>)"

definition build_flags :: "cmn_row list \<Rightarrow> cmn_flag_row list" where
  "build_flags df = map build_flags_row df"

text \<open>An example of the fetched frame: all phases, phase 2 missing, no phase.\<close>

definition cmn_base_example :: "cmn_row list" where
  "cmn_base_example =
     [\<lparr>anio = 2025, sec_ejec = ''300684'', has_f1 = 1, has_f2 = 1, has_f3 = 1, has_mef = 1,
       has_minedu = 0, has_f1_mef = 1, has_f2_mef = 1, has_f3_mef = 1, has_f1_minedu = 0,
       has_f2_minedu = 0, has_f3_minedu = 0\<rparr>,
      \<lparr>anio = 2024, sec_ejec = ''300684'', has_f1 = 1, has_f2 = 0, has_f3 = 1, has_mef = 1,
       has_minedu = 0, has_f1_mef = 1, has_f2_mef = 0, has_f3_mef = 1, has_f1_minedu = 0,
       has_f2_minedu = 0, has_f3_minedu = 0\<rparr>,
      \<lparr>anio = 2024, sec_ejec = ''300685'', has_f1 = 0, has_f2 = 0, has_f3 = 0, has_mef = 0,
       has_minedu = 0, has_f1_mef = 0, has_f2_mef = 0, has_f3_mef = 0, has_f1_minedu = 0,
       has_f2_minedu = 0, has_f3_minedu = 0\<rparr>]"

section \<open>Entity keys (scraping/utils.py, scraping/padron.py, scraping/build\_panel\_t1.py)\<close>

text \<open>
  A Python \<^verbatim>\<open>str\<close> is a sequence of Unicode code points, modelled as a list of naturals.
  \<^verbatim>\<open>normalize_sec_ejec\<close> accepts \<^verbatim>\<open>str | int | None\<close>. The whitespace class used by
  \<^verbatim>\<open>str.strip()\<close> and by the pattern \<^verbatim>\<open>\s+\<close> belongs to the Python runtime and is a
  parameter \<open>isspace\<close>; \<open>py_isspace\<close> below is CPython's table. The class \<^verbatim>\<open>[^0-9]\<close>
  is fixed by the pattern itself.

  \<^verbatim>\<open>str(value)\<close> of an integer is its decimal representation, and it raises
  \<^verbatim>\<open>ValueError\<close> when the integer has more decimal digits (the sign not counted) than the
  interpreter's limit \<^verbatim>\<open>sys.get_int_max_str_digits()\<close>. The limit is the parameter
  \<open>max_str_digits\<close>: 4300 by default on CPython 3.11 and later, and 0 where there is no
  limit (an older interpreter, or the limit switched off); the interpreter admits no other
  value below 640.
\<close>

type_synonym pystr = "nat list"

datatype pyvalue = PyNone | PyStr pystr | PyInt int

datatype exn = ValueError

fun digits_of_nat :: "nat \<Rightarrow> pystr" where
  "digits_of_nat n = (if n < 10 then [48 + n] else digits_of_nat (n div 10) @ [48 + n mod 10])"

declare digits_of_nat.simps [simp del]

definition default_max_str_digits :: nat where
  "default_max_str_digits = 4300"

definition str_of_int :: "nat \<Rightarrow> int \<Rightarrow> exn + pystr" where
  "str_of_int max_str_digits i =
     (let ds = digits_of_nat (nat \<bar>i\<bar>)
      in if 0 < max_str_digits \<and> max_str_digits < length ds then Inl ValueError
         else Inr (if i < 0 then 45 # ds else ds))"

definition py_str :: "nat \<Rightarrow> pyvalue \<Rightarrow> exn + pystr" where
  "py_str max_str_digits v =
     (case v of
        PyNone \<Rightarrow> Inr [78, 111, 110, 101]
      | PyStr s \<Rightarrow> Inr s
      | PyInt i \<Rightarrow> str_of_int max_str_digits i)"

definition strip :: "(nat \<Rightarrow> bool) \<Rightarrow> pystr \<Rightarrow> pystr" where
  "strip isspace s = rev (dropWhile isspace (rev (dropWhile isspace s)))"

definition sub_spaces :: "(nat \<Rightarrow> bool) \<Rightarrow> pystr \<Rightarrow> pystr" where
  "sub_spaces isspace s = filter (\<lambda>c. \<not> isspace c) s"

definition is_ascii_digit :: "nat \<Rightarrow> bool" where
  "is_ascii_digit c = (48 \<le> c \<and> c \<le> 57)"

definition sub_non_0_9 :: "pystr \<Rightarrow> pystr" where
  "sub_non_0_9 s = filter is_ascii_digit s"

definition normalize_sec_ejec :: "(nat \<Rightarrow> bool) \<Rightarrow> nat \<Rightarrow> pyvalue \<Rightarrow> exn + pystr" where
  "normalize_sec_ejec isspace max_str_digits v =
     (case v of
        PyNone \<Rightarrow> Inr []
      | _ \<Rightarrow>
          (case py_str max_str_digits v of
             Inl e \<Rightarrow> Inl e
           | Inr text \<Rightarrow> Inr (sub_non_0_9 (sub_spaces isspace (strip isspace text)))))"

text \<open>
  The pandas readers (\<^verbatim>\<open>read_padron\<close>, the analysis scripts) do not call
  \<^verbatim>\<open>normalize_sec_ejec\<close>; they evaluate
  \<^verbatim>\<open>df["sec_ejec"].astype(str).str.replace(r"\D", "", regex=True)\<close> on the column that
  \<^verbatim>\<open>read_csv\<close> delivers: a cell is a string or missing, and \<^verbatim>\<open>read_csv\<close> has already
  turned the fields it takes for missing values into missing cells. A missing cell
  becomes the text \<^verbatim>\<open>nan\<close> under \<^verbatim>\<open>astype(str)\<close>. The class \<^verbatim>\<open>\d\<close> of a \<^verbatim>\<open>str\<close>
  pattern is the Unicode category of decimal digits, a table of the runtime: the parameter
  \<open>isdigit\<close>.
\<close>

definition astype_str :: "pystr option \<Rightarrow> pystr" where
  "astype_str v = (case v of None \<Rightarrow> [110, 97, 110] | Some s \<Rightarrow> s)"

definition str_replace_nondigit :: "(nat \<Rightarrow> bool) \<Rightarrow> pystr option \<Rightarrow> pystr" where
  "str_replace_nondigit isdigit v = filter isdigit (astype_str v)"

text \<open>
  CPython's whitespace code points, and the part of the decimal-digit category that the
  examples below use: the ASCII digits and the Arabic-Indic digits U+0660 to U+0669.
\<close>

definition py_isspace :: "nat \<Rightarrow> bool" where
  "py_isspace c = (c \<in> set ([9, 10, 11, 12, 13, 28, 29, 30, 31, 32, 133, 160, 5760] @ [8192..<8203] @ [8232, 8233, 8239, 8287, 12288]))"

definition ascii_or_arabic_indic_digit :: "nat \<Rightarrow> bool" where
  "ascii_or_arabic_indic_digit c = (is_ascii_digit c \<or> (1632 \<le> c \<and> c \<le> 1641))"

section \<open>Retry wrapper (scraping/scraper.py, scraping/config.py)\<close>

text \<open>
  \<^verbatim>\<open>_retry_on_failure(func, *args, max_retries=MAX_RETRIES)\<close> calls \<^verbatim>\<open>func\<close> in a
  \<^verbatim>\<open>for attempt in range(max_retries)\<close> loop. The wrapped function drives a browser, so
  its outcome depends on the call: \<open>func k\<close> is the outcome of the call made at attempt
  \<open>k\<close>. An outcome is a returned value, one of the three caught exception classes, or any
  other exception (which the \<^verbatim>\<open>except\<close> clause does not catch). The run records the
  number of calls made and the arguments of \<^verbatim>\<open>time.sleep\<close> in order; logging has no
  effect on either. With \<^verbatim>\<open>max_retries = 0\<close> the loop body never runs and
  \<^verbatim>\<open>raise last_exception\<close> raises a TypeError, since \<^verbatim>\<open>last_exception\<close> is None.
\<close>

datatype ('a, 'e) outcome = Returns 'a | RaisesRetryable 'e | RaisesOther 'e

datatype ('a, 'e) retry_result = Returned 'a | Raised 'e | RaisedTypeError

definition MAX_RETRIES :: nat where
  "MAX_RETRIES = 3"

definition RETRY_DELAY_BASE :: nat where
  "RETRY_DELAY_BASE = 2"

record ('a, 'e) retry_run =
  result :: "('a, 'e) retry_result"
  calls :: nat
  sleeps :: "nat list"

fun retry_loop ::
  "(nat \<Rightarrow> ('a, 'e) outcome) \<Rightarrow> nat \<Rightarrow> nat \<Rightarrow> 'e option \<Rightarrow> nat list \<Rightarrow> ('a, 'e) retry_run" where
  "retry_loop func 0 attempt last_exception slept =
     \<lparr>result = (case last_exception of None \<Rightarrow> RaisedTypeError | Some e \<Rightarrow> Raised e),
      calls = attempt, sleeps = slept\<rparr>"
| "retry_loop func (Suc n) attempt last_exception slept =
     (case func attempt of
        Returns v \<Rightarrow> \<lparr>result = Returned v, calls = Suc attempt, sleeps = slept\<rparr>
      | RaisesOther e \<Rightarrow> \<lparr>result = Raised e, calls = Suc attempt, sleeps = slept\<rparr>
      | RaisesRetryable e \<Rightarrow>
          retry_loop func n (Suc attempt) (Some e) (slept @ [RETRY_DELAY_BASE * 2 ^ attempt]))"

definition retry_on_failure :: "(nat \<Rightarrow> ('a, 'e) outcome) \<Rightarrow> nat \<Rightarrow> ('a, 'e) retry_run" where
  "retry_on_failure func max_retries = retry_loop func max_retries 0 None []"

section \<open>Data-frame operations used by the panel builders\<close>

text \<open>
  A data frame is the list of its rows, a missing cell (\<^verbatim>\<open>NaN\<close>, \<^verbatim>\<open>pd.NA\<close>) is \<open>None\<close>.
  Entity keys of the panels are \<open>string\<close>s. \<^verbatim>\<open>str.contains(pat, na=False)\<close> is substring
  search, false on a missing cell. \<^verbatim>\<open>drop_duplicates\<close> keeps the first row of every key.
  \<^verbatim>\<open>merge(how="left")\<close> keeps the order of the left frame and emits one row per matching
  right row, or one row with missing right columns; \<^verbatim>\<open>merge(how="outer")\<close> emits the keys
  of both frames in sorted order.
\<close>

fun str_contains :: "string \<Rightarrow> string \<Rightarrow> bool" where
  "str_contains pat [] = (pat = [])"
| "str_contains pat (c # cs) = (take (length pat) (c # cs) = pat \<or> str_contains pat cs)"

definition str_contains_na :: "string \<Rightarrow> string option \<Rightarrow> bool" where
  "str_contains_na pat cell = (case cell of None \<Rightarrow> False | Some s \<Rightarrow> str_contains pat s)"

function drop_duplicates :: "('a \<Rightarrow> 'k) \<Rightarrow> 'a list \<Rightarrow> 'a list" where
  "drop_duplicates key [] = []"
| "drop_duplicates key (x # xs) = x # drop_duplicates key [y \<leftarrow> xs. key y \<noteq> key x]"
  by pat_completeness auto
termination
  by (relation "measure (\<lambda>(key, xs). length xs)") (auto simp: less_Suc_eq_le)

definition merge_left :: "('l \<Rightarrow> 'r \<Rightarrow> bool) \<Rightarrow> ('l \<Rightarrow> 'r option \<Rightarrow> 'o) \<Rightarrow> 'l list \<Rightarrow> 'r list \<Rightarrow> 'o list" where
  "merge_left on row left right =
     concat (map (\<lambda>l. case filter (on l) right of
                          [] \<Rightarrow> [row l None]
                        | rs \<Rightarrow> map (\<lambda>r. row l (Some r)) rs) left)"

definition merge_outer ::
  "('l \<Rightarrow> 'k::linorder) \<Rightarrow> ('r \<Rightarrow> 'k) \<Rightarrow> ('k \<Rightarrow> 'l option \<Rightarrow> 'r option \<Rightarrow> 'o) \<Rightarrow> 'l list \<Rightarrow> 'r list \<Rightarrow> 'o list" where
  "merge_outer lkey rkey row left right =
     concat (map (\<lambda>k.
        let ls = [l \<leftarrow> left. lkey l = k]; rs = [r \<leftarrow> right. rkey r = k]
        in if rs = [] then map (\<lambda>l. row k (Some l) None) ls
           else if ls = [] then map (\<lambda>r. row k None (Some r)) rs
           else concat (map (\<lambda>l. map (\<lambda>r. row k (Some l) (Some r)) rs) ls))
        (sort (remdups (map lkey left @ map rkey right))))"

section \<open>Adoption groups and the T1 panel (scraping/build\_panel\_t1.py)\<close>

text \<open>
  The roster (padron) as read by \<^verbatim>\<open>read_padron\<close>: \<^verbatim>\<open>sec_ejec\<close> is a string after
  \<^verbatim>\<open>astype(str)\<close>, the other columns may be missing. \<^verbatim>\<open>build_groups\<close> returns the
  municipal roster and one row per key of the outer merge of the pre-2025 status with the 2025
  status.
\<close>

record padron_row =
  p_sec_ejec :: string
  p_anio :: "int option"
  siga_implementado :: "string option"
  categoria :: "string option"

definition isin :: "'a option \<Rightarrow> 'a list \<Rightarrow> bool" where
  "isin cell values = (case cell of None \<Rightarrow> False | Some v \<Rightarrow> v \<in> set values)"

definition pre_siga_of :: "string option list \<Rightarrow> string" where
  "pre_siga_of s =
     (if Some ''SI'' \<in> set s then ''SI'' else if Some ''NO'' \<in> set s then ''NO'' else ''ABSENT'')"

definition groupby_pre_status :: "'a padron_row_scheme list \<Rightarrow> (string \<times> string) list" where
  "groupby_pre_status pre_rows =
     map (\<lambda>k. (k, pre_siga_of (map siga_implementado [r \<leftarrow> pre_rows. p_sec_ejec r = k])))
       (sort (remdups (map p_sec_ejec pre_rows)))"

definition fillna :: "'a \<Rightarrow> 'a option \<Rightarrow> 'a" where
  "fillna v cell = (case cell of None \<Rightarrow> v | Some x \<Rightarrow> x)"

record group_row =
  g_sec_ejec :: string
  g_pre_siga :: string
  g_post_siga :: string
  g_group_t1 :: string
  g_t1_switcher :: int

definition label :: "string \<Rightarrow> string \<Rightarrow> string" where
  "label post_s pre_s =
     (if post_s = ''SI'' \<and> pre_s = ''SI'' then ''ALWAYS_IN''
      else if post_s = ''SI'' \<and> pre_s = ''NO'' then ''SWITCHER''
      else if post_s = ''SI'' \<and> pre_s = ''ABSENT'' then ''ENTRY_ABSENT''
      else if post_s = ''ABSENT'' \<and> pre_s = ''SI'' then ''EXIT''
      else ''OTHER'')"

definition group_of :: "string \<Rightarrow> (string \<times> string) option \<Rightarrow> (string \<times> string option) option \<Rightarrow> group_row" where
  "group_of k l r =
     (let post_s = fillna ''ABSENT'' (case r of None \<Rightarrow> None | Some x \<Rightarrow> snd x);
          pre_s = fillna ''ABSENT'' (map_option snd l);
          g = label post_s pre_s
      in \<lparr>g_sec_ejec = k, g_pre_siga = pre_s, g_post_siga = post_s, g_group_t1 = g,
          g_t1_switcher = astype_int (g = ''SWITCHER'')\<rparr>)"

definition build_groups :: "'a padron_row_scheme list \<Rightarrow> 'a padron_row_scheme list \<times> group_row list" where
  "build_groups padron =
     (let muni = [r \<leftarrow> padron. str_contains_na ''MUNICIPALIDADES'' (categoria r)];
          muni = [r \<leftarrow> muni. isin (p_anio r) [2022, 2023, 2024, 2025]];
          pre_rows = [r \<leftarrow> muni. isin (p_anio r) [2022, 2023, 2024]];
          post_rows = drop_duplicates id
                   (map (\<lambda>r. (p_sec_ejec r, siga_implementado r)) [r \<leftarrow> muni. p_anio r = Some 2025]);
          pre_status = groupby_pre_status pre_rows;
          groups = merge_outer fst fst group_of pre_status post_rows
      in (muni, groups))"

text \<open>
  The budget panel written by \<^verbatim>\<open>build_panel_budget_muni.py\<close> (its \<^verbatim>\<open>load_file\<close> turns an
  empty \<^verbatim>\<open>sec_ejec\<close> into a missing cell) and \<^verbatim>\<open>build_panel\<close>, two left merges.
\<close>

record budget_row =
  b_sec_ejec :: "string option"
  b_anio :: int
  departamento_code :: "string option"
  pia :: "real option"
  pim :: "real option"
  devengado :: "real option"

record t1_row = budget_row +
  siga_padron :: "string option"
  pre_siga :: "string option"
  post_siga :: "string option"
  group_t1 :: "string option"
  t1_switcher :: "int option"
  post_2025 :: int
  t1_post :: int

definition t1_row_of :: "budget_row \<times> string option \<Rightarrow> group_row option \<Rightarrow> t1_row" where
  "t1_row_of bs g =
     (let sw = map_option g_t1_switcher g;
          p25 = astype_int (b_anio (fst bs) = 2025)
      in budget_row.extend (fst bs)
           \<lparr>siga_padron = snd bs,
            pre_siga = map_option g_pre_siga g,
            post_siga = map_option g_post_siga g,
            group_t1 = map_option g_group_t1 g,
            t1_switcher = sw,
            post_2025 = p25,
            t1_post = astype_int (sw = Some 1 \<and> p25 = 1)\<rparr>)"

definition build_panel ::
  "budget_row list \<Rightarrow> 'a padron_row_scheme list \<Rightarrow> group_row list \<Rightarrow> t1_row list" where
  "build_panel presupuesto muni groups =
     (let padron_year = drop_duplicates id
            (map (\<lambda>r. (p_sec_ejec r, p_anio r, siga_implementado r)) muni);
          panel = merge_left
            (\<lambda>b y. b_sec_ejec b = Some (fst y) \<and> Some (b_anio b) = fst (snd y))
            (\<lambda>b y. (b, case y of None \<Rightarrow> None | Some z \<Rightarrow> snd (snd z)))
            presupuesto padron_year
      in merge_left (\<lambda>bs g. b_sec_ejec (fst bs) = Some (g_sec_ejec g)) t1_row_of panel groups)"

section \<open>Analysis panels (analisis/did\_clasico\_2x2, analisis/oaxaca\_blinder)\<close>

text \<open>
  Both scripts clean the key with \<^verbatim>\<open>astype(str).str.replace(r"\D", "", regex=True)\<close> (on a
  \<open>string\<close> the digits are \<^verbatim>\<open>0\<close> to \<^verbatim>\<open>9\<close>), reduce the compliance frame to
  \<^verbatim>\<open>["sec_ejec", "anio", "cumple_v4"]\<close> with \<^verbatim>\<open>drop_duplicates(subset=["sec_ejec", "anio"])\<close>,
  and left-merge it onto their base frame.
\<close>

definition sec_ejec_digits :: "string option \<Rightarrow> string" where
  "sec_ejec_digits cell =
     filter (\<lambda>c. CHR ''0'' \<le> c \<and> c \<le> CHR ''9'') (case cell of None \<Rightarrow> ''nan'' | Some s \<Rightarrow> s)"

definition cmn_cols :: "cmn_flag_row list \<Rightarrow> (string \<times> int \<times> int) list" where
  "cmn_cols cmn =
     drop_duplicates (\<lambda>c. (fst c, fst (snd c)))
       (map (\<lambda>r. (sec_ejec_digits (Some (sec_ejec r)), anio r, cumple_v4 r)) cmn)"

definition log1p_clip :: "real option \<Rightarrow> real option" where
  "log1p_clip cell = map_option (\<lambda>x. ln (1 + max x 0)) cell"

record t1_cmn_row = t1_row +
  cumple_v4f :: real

definition t1_cmn_row_of :: "t1_row \<Rightarrow> (string \<times> int \<times> int) option \<Rightarrow> t1_cmn_row" where
  "t1_cmn_row_of t c =
     t1_row.extend t \<lparr>cumple_v4f = real_of_int (fillna 0 (map_option (\<lambda>z. snd (snd z)) c))\<rparr>"

definition merge_cmn :: "t1_row list \<Rightarrow> cmn_flag_row list \<Rightarrow> t1_cmn_row list" where
  "merge_cmn t1 cmn =
     merge_left (\<lambda>t c. b_sec_ejec t = Some (fst c) \<and> b_anio t = fst (snd c)) t1_cmn_row_of
       t1 (cmn_cols cmn)"

record did_row = t1_cmn_row +
  switcher :: int
  post :: int
  switcher_x_post :: int
  log_pia :: "real option"
  log_pim :: "real option"

definition did_row_of :: "t1_cmn_row \<Rightarrow> did_row" where
  "did_row_of r =
     (let sw = astype_int (group_t1 r = Some ''SWITCHER'');
          po = astype_int (b_anio r = 2025)
      in t1_cmn_row.extend r
           \<lparr>switcher = sw, post = po, switcher_x_post = sw * po,
            log_pia = log1p_clip (pia r), log_pim = log1p_clip (pim r)\<rparr>)"

definition did_build_panel :: "t1_row list \<Rightarrow> cmn_flag_row list \<Rightarrow> did_row list" where
  "did_build_panel t1 cmn =
     map did_row_of
       [r \<leftarrow> merge_cmn t1 cmn. isin (group_t1 r) [''ALWAYS_IN'', ''SWITCHER'']]"

text \<open>
  \<^verbatim>\<open>run_oaxaca_blinder.build_panel\<close>: the sets \<^verbatim>\<open>pre_ues\<close>, \<^verbatim>\<open>post_ues\<close> of the municipal
  roster, \<^verbatim>\<open>assign_group\<close>, and \<^verbatim>\<open>group_map\<close>, the dict over \<^verbatim>\<open>pre_ues | post_ues\<close>.
\<close>

definition muni_padron :: "'a padron_row_scheme list \<Rightarrow> 'a padron_row_scheme list" where
  "muni_padron padron =
     [r \<leftarrow> [r \<leftarrow> padron. str_contains_na ''MUNICIPALIDADES'' (categoria r)].
        isin (p_anio r) [2022, 2023, 2024, 2025]]"

definition pre_ues :: "'a padron_row_scheme list \<Rightarrow> string set" where
  "pre_ues padron =
     set (map p_sec_ejec
       [r \<leftarrow> muni_padron padron.
          (case p_anio r of None \<Rightarrow> False | Some y \<Rightarrow> y \<le> 2024) \<and> siga_implementado r = Some ''SI''])"

definition post_ues :: "'a padron_row_scheme list \<Rightarrow> string set" where
  "post_ues padron = set (map p_sec_ejec [r \<leftarrow> muni_padron padron. p_anio r = Some 2025])"

definition assign_group :: "string set \<Rightarrow> string set \<Rightarrow> string \<Rightarrow> string" where
  "assign_group pre_u post_u se =
     (if se \<in> pre_u \<and> se \<in> post_u then ''ALWAYS_IN''
      else if se \<notin> pre_u \<and> se \<in> post_u then ''ENTRY''
      else if se \<in> pre_u \<and> se \<notin> post_u then ''EXIT''
      else ''OTHER'')"

definition group_map :: "'a padron_row_scheme list \<Rightarrow> string \<Rightarrow> string option" where
  "group_map padron se =
     (if se \<in> pre_ues padron \<union> post_ues padron
      then Some (assign_group (pre_ues padron) (post_ues padron) se) else None)"

record ob_row = budget_row +
  o_cumple_v4 :: real
  o_group :: "string option"
  o_log_pia :: "real option"
  o_log_pim :: "real option"

definition ob_row_of ::
  "'a padron_row_scheme list \<Rightarrow> budget_row \<Rightarrow> (string \<times> int \<times> int) option \<Rightarrow> ob_row" where
  "ob_row_of padron b c =
     budget_row.extend
       (b\<lparr>b_sec_ejec := Some (sec_ejec_digits (b_sec_ejec b)),
          departamento_code := Some (fillna ''UNK'' (departamento_code b))\<rparr>)
       \<lparr>o_cumple_v4 = real_of_int (fillna 0 (map_option (\<lambda>z. snd (snd z)) c)),
        o_group = group_map padron (sec_ejec_digits (b_sec_ejec b)),
        o_log_pia = log1p_clip (pia b), o_log_pim = log1p_clip (pim b)\<rparr>"

definition ob_build_panel ::
  "budget_row list \<Rightarrow> cmn_flag_row list \<Rightarrow> 'a padron_row_scheme list \<Rightarrow> ob_row list" where
  "ob_build_panel budget cmn padron =
     [r \<leftarrow> merge_left
              (\<lambda>b c. sec_ejec_digits (b_sec_ejec b) = fst c \<and> b_anio b = fst (snd c))
              (ob_row_of padron) budget (cmn_cols cmn).
        isin (o_group r) [''ALWAYS_IN'', ''ENTRY'']]"

text \<open>\<^verbatim>\<open>main\<close> of \<^verbatim>\<open>build_panel_t1.py\<close>, without the file system.\<close>

definition main_t1 :: "budget_row list \<Rightarrow> 'a padron_row_scheme list \<Rightarrow> t1_row list" where
  "main_t1 presupuesto padron =
     (let (muni, groups) = build_groups padron in build_panel presupuesto muni groups)"

section \<open>Keys, roster projections and example frames\<close>

definition panel_key :: "'a budget_row_scheme \<Rightarrow> string option \<times> int" where
  "panel_key r = (b_sec_ejec r, b_anio r)"

definition roster_key ::
  "'a padron_row_scheme \<Rightarrow> string \<times> int option \<times> string option \<times> string option" where
  "roster_key r = (p_sec_ejec r, p_anio r, siga_implementado r, categoria r)"

definition single_post_status :: "'a padron_row_scheme list \<Rightarrow> bool" where
  "single_post_status padron =
     (\<forall>r \<in> set padron. \<forall>r' \<in> set padron.
        p_anio r = Some 2025 \<and> p_anio r' = Some 2025 \<and> p_sec_ejec r = p_sec_ejec r'
          \<longrightarrow> siga_implementado r = siga_implementado r')"

definition single_year_status :: "'a padron_row_scheme list \<Rightarrow> bool" where
  "single_year_status padron =
     (\<forall>r \<in> set padron. \<forall>r' \<in> set padron.
        p_anio r = p_anio r' \<and> p_sec_ejec r = p_sec_ejec r'
          \<longrightarrow> siga_implementado r = siga_implementado r')"

definition muni_row :: "string \<Rightarrow> int \<Rightarrow> string \<Rightarrow> padron_row" where
  "muni_row se y siga =
     \<lparr>p_sec_ejec = se, p_anio = Some y, siga_implementado = Some siga,
      categoria = Some ''MUNICIPALIDADES DISTRITALES''\<rparr>"

definition budget_of :: "string \<Rightarrow> int \<Rightarrow> real \<Rightarrow> budget_row" where
  "budget_of se y amount =
     \<lparr>b_sec_ejec = Some se, b_anio = y, departamento_code = Some ''15'',
      pia = Some amount, pim = Some (amount + 200), devengado = Some (amount - 100)\<rparr>"

definition padron_example :: "padron_row list" where
  "padron_example =
     [muni_row ''300002'' 2025 ''SI'',
      muni_row ''300001'' 2023 ''NO'', muni_row ''300001'' 2024 ''SI'',
      muni_row ''300001'' 2025 ''SI'',
      muni_row ''300003'' 2024 ''NO'', muni_row ''300003'' 2025 ''SI'',
      muni_row ''300004'' 2022 ''SI'']"

text \<open>
  The roster file \<^verbatim>\<open>padron_largo.csv\<close> is written by \<^verbatim>\<open>main\<close> of
  \<^verbatim>\<open>padron_export.py\<close> and by nothing else. Its first loop writes, for every row of the
  historical table and every year 2022, 2023, 2024 with a non-empty status, a row with that
  year and status; its second loop writes, for every row of the table of November 2025, a row
  with \<^verbatim>\<open>anio\<close> 2025 and the literal \<^verbatim>\<open>"SI"\<close> as \<^verbatim>\<open>siga_implementado\<close>. Both loops skip
  a row whose normalized \<^verbatim>\<open>sec_ejec\<close> is empty. \<open>padron_largo\<close> is the roster that
  \<^verbatim>\<open>read_padron\<close> returns from that file: the status and the category of a historical row
  are whatever the table holds (possibly missing after reading), the status of a 2025 row is
  \<^verbatim>\<open>SI\<close>.
\<close>

datatype hist_year = Y2022 | Y2023 | Y2024

fun year_of :: "hist_year \<Rightarrow> int" where
  "year_of Y2022 = 2022"
| "year_of Y2023 = 2023"
| "year_of Y2024 = 2024"

definition padron_largo ::
  "(string \<times> hist_year \<times> string option \<times> string option) list \<Rightarrow>
   (string \<times> string option) list \<Rightarrow> padron_row list" where
  "padron_largo hist_rows rows_2025 =
     map (\<lambda>(sec, y, status, cat).
            \<lparr>p_sec_ejec = sec, p_anio = Some (year_of y), siga_implementado = status,
             categoria = cat\<rparr>)
       [h \<leftarrow> hist_rows. fst h \<noteq> []] @
     map (\<lambda>(sec, cat).
            \<lparr>p_sec_ejec = sec, p_anio = Some 2025, siga_implementado = Some ''SI'',
             categoria = cat\<rparr>)
       [h \<leftarrow> rows_2025. fst h \<noteq> []]"

definition hist_example :: "(string \<times> hist_year \<times> string option \<times> string option) list" where
  "hist_example =
     [(''300001'', Y2023, Some ''NO'', Some ''MUNICIPALIDADES DISTRITALES''),
      (''300001'', Y2024, Some ''SI'', Some ''MUNICIPALIDADES DISTRITALES''),
      (''300003'', Y2024, Some ''NO'', Some ''MUNICIPALIDADES DISTRITALES''),
      (''300004'', Y2022, Some ''SI'', Some ''MUNICIPALIDADES PROVINCIALES'')]"

definition rows_2025_example :: "(string \<times> string option) list" where
  "rows_2025_example =
     [(''300002'', Some ''MUNICIPALIDADES DISTRITALES''),
      (''300001'', Some ''MUNICIPALIDADES DISTRITALES''),
      (''300003'', Some ''MUNICIPALIDADES DISTRITALES''),
      (''300001'', Some ''MUNICIPALIDADES DISTRITALES'')]"

definition padron_example_sourced :: "string padron_row_scheme list" where
  "padron_example_sourced = map (\<lambda>r. padron_row.extend r ''padron_historico'') padron_example"

definition cmn_of :: "string \<Rightarrow> int \<Rightarrow> int \<Rightarrow> cmn_flag_row" where
  "cmn_of se y flag =
     build_flags_row
       \<lparr>anio = y, sec_ejec = se, has_f1 = flag, has_f2 = flag, has_f3 = flag, has_mef = 1,
        has_minedu = 0, has_f1_mef = flag, has_f2_mef = flag, has_f3_mef = flag,
        has_f1_minedu = 0, has_f2_minedu = 0, has_f3_minedu = 0\<rparr>"

definition budget_example :: "budget_row list" where
  "budget_example =
     [budget_of ''300001'' 2024 1000, budget_of ''300001'' 2025 1100,
      budget_of ''300003'' 2025 400]"

definition budget_duplicated :: "budget_row list" where
  "budget_duplicated = [budget_of ''300001'' 2024 1000, budget_of ''300001'' 2024 50]"

section \<open>Bootstrap of the aggregate decomposition (analisis/diagnostics\_extras)\<close>

text \<open>
  Floating-point numbers are modelled as real numbers. \<^verbatim>\<open>oaxaca_aggregate_single\<close> works on
  two frames of the T1 panel with the compliance column; a missing \<^verbatim>\<open>group_t1\<close> is different
  from \<^verbatim>\<open>"ALWAYS_IN"\<close>. Its result is the triple (delta\_total, delta\_behavior,
  delta\_composition).
\<close>

definition mean_or_zero :: "real list \<Rightarrow> real" where
  "mean_or_zero xs = (if length xs > 0 then sum_list xs / real (length xs) else 0)"

definition oaxaca_aggregate_single ::
  "'a t1_cmn_row_scheme list \<Rightarrow> 'a t1_cmn_row_scheme list \<Rightarrow> real \<times> real \<times> real" where
  "oaxaca_aggregate_single df_24 df_25 =
     (let ai_24 = [r \<leftarrow> df_24. group_t1 r = Some ''ALWAYS_IN''];
          ai_25 = [r \<leftarrow> df_25. group_t1 r = Some ''ALWAYS_IN''];
          r_ai_24 = mean_or_zero (map cumple_v4f ai_24);
          r_ai_25 = mean_or_zero (map cumple_v4f ai_25);
          non_ai_25 = [r \<leftarrow> df_25. group_t1 r \<noteq> Some ''ALWAYS_IN''];
          r_entry_25 = mean_or_zero (map cumple_v4f non_ai_25);
          n_ai_25 = length ai_25;
          n_entry_25 = length non_ai_25;
          n_total_25 = n_ai_25 + n_entry_25
      in if n_total_25 = 0 then (0, 0, 0)
         else
           let w_ai = real n_ai_25 / real n_total_25;
               w_entry = real n_entry_25 / real n_total_25;
               delta_behavior = w_ai * (r_ai_25 - r_ai_24);
               delta_composition = w_entry * (r_entry_25 - r_ai_24);
               delta_total = delta_behavior + delta_composition
           in (delta_total, delta_behavior, delta_composition))"

text \<open>
  \<^verbatim>\<open>np.percentile(arr, q)\<close> with the default linear interpolation: the virtual index
  \<open>q / 100 * (n - 1)\<close> in the sorted array, interpolated between its two neighbours. On an
  empty array (\<^verbatim>\<open>n_boot = 0\<close>) numpy gives \<^verbatim>\<open>nan\<close> or raises, depending on its version:
  \<open>None\<close> stands for both. \<^verbatim>\<open>round(x, 2)\<close> rounds to two decimals, ties to even.
  \<^verbatim>\<open>np.std\<close> is the population standard deviation.
\<close>

definition percentile :: "real list \<Rightarrow> real \<Rightarrow> real option" where
  "percentile arr q =
     (if arr = [] then None
      else
        let s = sort arr;
            n = length s;
            h = q / 100 * real (n - 1);
            lo = nat \<lfloor>h\<rfloor>;
            hi = min (lo + 1) (n - 1);
            g = h - real lo
        in Some (s ! lo + (s ! hi - s ! lo) * g))"

definition round_half_even :: "real \<Rightarrow> int" where
  "round_half_even x =
     (let f = \<lfloor>x\<rfloor>; d = x - real_of_int f
      in if d < 1 / 2 then f else if 1 / 2 < d then f + 1 else if even f then f else f + 1)"

definition round2 :: "real \<Rightarrow> real" where
  "round2 x = real_of_int (round_half_even (x * 100)) / 100"

definition np_std :: "real list \<Rightarrow> real option" where
  "np_std arr =
     (if arr = [] then None
      else
        let m = sum_list arr / real (length arr)
        in Some (sqrt (sum_list (map (\<lambda>x. (x - m)\<^sup>2) arr) / real (length arr))))"

definition pp :: "real option \<Rightarrow> real option" where
  "pp x = map_option (\<lambda>v. round2 (v * 100)) x"

record boot_result =
  delta_total_pp :: real
  delta_total_ci95_low :: "real option"
  delta_total_ci95_high :: "real option"
  delta_behavior_pp :: real
  delta_behavior_ci95_low :: "real option"
  delta_behavior_ci95_high :: "real option"
  delta_composition_pp :: real
  delta_composition_ci95_low :: "real option"
  delta_composition_ci95_high :: "real option"
  n_boot_of :: nat
  se_total :: "real option"
  se_behavior :: "real option"
  se_composition :: "real option"

text \<open>
  \<^verbatim>\<open>np.random.seed(seed)\<close> fixes the draws of the generator, which belongs to numpy: the
  parameter \<open>choice\<close> gives, for the iteration \<open>k\<close> of the loop, the two arrays that
  \<^verbatim>\<open>np.random.choice(entities_24, ...)\<close> and \<^verbatim>\<open>np.random.choice(entities_25, ...)\<close> return.
  A replicate keeps the rows whose \<^verbatim>\<open>sec_ejec\<close> occurs in the drawn array
  (\<^verbatim>\<open>isin\<close>), each row once. \<^verbatim>\<open>unique()\<close> lists the keys in order of first appearance.
\<close>

definition entities :: "'a t1_cmn_row_scheme list \<Rightarrow> string option list" where
  "entities df = drop_duplicates id (map b_sec_ejec df)"

definition bootstrap_replicate ::
  "'a t1_cmn_row_scheme list \<Rightarrow> 'a t1_cmn_row_scheme list \<Rightarrow>
   string option list \<times> string option list \<Rightarrow> real \<times> real \<times> real" where
  "bootstrap_replicate df_24 df_25 sample =
     (let sample_ents_24 = fst sample;
          sample_ents_25 = snd sample;
          boot_24 = [r \<leftarrow> df_24. b_sec_ejec r \<in> set sample_ents_24];
          boot_25 = [r \<leftarrow> df_25. b_sec_ejec r \<in> set sample_ents_25]
      in oaxaca_aggregate_single boot_24 boot_25)"

definition run_bootstrap_oaxaca ::
  "(nat \<Rightarrow> string option list \<times> string option list) \<Rightarrow> 'a t1_cmn_row_scheme list \<Rightarrow> nat \<Rightarrow>
   boot_result" where
  "run_bootstrap_oaxaca choice panel n_boot =
     (let df_24 = [r \<leftarrow> panel. b_anio r = 2024];
          df_25 = [r \<leftarrow> panel. b_anio r = 2025];
          point = oaxaca_aggregate_single df_24 df_25;
          boots = map (\<lambda>k. bootstrap_replicate df_24 df_25 (choice k)) [0..<n_boot];
          boot_total = map fst boots;
          boot_behavior = map (\<lambda>b. fst (snd b)) boots;
          boot_composition = map (\<lambda>b. snd (snd b)) boots
      in \<lparr>delta_total_pp = round2 (fst point * 100),
          delta_total_ci95_low = pp (percentile boot_total 2.5),
          delta_total_ci95_high = pp (percentile boot_total 97.5),
          delta_behavior_pp = round2 (fst (snd point) * 100),
          delta_behavior_ci95_low = pp (percentile boot_behavior 2.5),
          delta_behavior_ci95_high = pp (percentile boot_behavior 97.5),
          delta_composition_pp = round2 (snd (snd point) * 100),
          delta_composition_ci95_low = pp (percentile boot_composition 2.5),
          delta_composition_ci95_high = pp (percentile boot_composition 97.5),
          n_boot_of = n_boot,
          se_total = pp (np_std boot_total),
          se_behavior = pp (np_std boot_behavior),
          se_composition = pp (np_std boot_composition)\<rparr>)"

text \<open>
  An example panel with two entities per year, and two draws for it. Under
  \<^verbatim>\<open>np.random.seed(42)\<close> the first iteration draws the indices 0, 1 for 2024 and 0, 0
  for 2025 (the low bits of the first four outputs of numpy's Mersenne Twister), which is
  \<open>choice_seed_42 0\<close>; the examples run a single iteration of it. \<open>choice_all\<close> draws
  every entity in every iteration.
\<close>

definition t1c_of :: "string \<Rightarrow> int \<Rightarrow> string \<Rightarrow> real \<Rightarrow> t1_cmn_row" where
  "t1c_of se y g c =
     \<lparr>b_sec_ejec = Some se, b_anio = y, departamento_code = Some ''15'',
      pia = None, pim = None, devengado = None,
      siga_padron = Some ''SI'', pre_siga = Some ''SI'', post_siga = Some ''SI'',
      group_t1 = Some g, t1_switcher = Some 0, post_2025 = astype_int (y = 2025), t1_post = 0,
      cumple_v4f = c\<rparr>"

definition boot_panel_example :: "t1_cmn_row list" where
  "boot_panel_example =
     [t1c_of ''300001'' 2024 ''ALWAYS_IN'' 0, t1c_of ''300002'' 2024 ''ALWAYS_IN'' 0,
      t1c_of ''300001'' 2025 ''ALWAYS_IN'' 1, t1c_of ''300002'' 2025 ''ALWAYS_IN'' 0]"

definition choice_seed_42 :: "nat \<Rightarrow> string option list \<times> string option list" where
  "choice_seed_42 k = ([Some ''300001'', Some ''300002''], [Some ''300001'', Some ''300001''])"

definition choice_all :: "nat \<Rightarrow> string option list \<times> string option list" where
  "choice_all k = ([Some ''300002'', Some ''300001''], [Some ''300001'', Some ''300002''])"

section \<open>Compliance flags: results\<close>

lemma build_flags_row_v4:
  "cumple_v4 (build_flags_row r) = astype_int (has_f1 r = 1 \<and> has_f2 r = 1 \<and> has_f3 r = 1)"
  by (simp add: build_flags_row_def Let_def cmn_row.extend_def)

lemma build_flags_row_keeps:
  "has_f1 (build_flags_row r) = has_f1 r"
  "has_f2 (build_flags_row r) = has_f2 r"
  "has_f3 (build_flags_row r) = has_f3 r"
  by (simp_all add: build_flags_row_def Let_def cmn_row.extend_def)

lemma build_flags_row_truncate: "cmn_row.truncate (build_flags_row r) = r"
  by (simp add: build_flags_row_def Let_def cmn_row.extend_def cmn_row.truncate_def)

text \<open>
  C1. \<^verbatim>\<open>build_flags\<close> returns one row for every row of the fetched frame, in the same
  order, with the fetched columns unchanged, and the \<^verbatim>\<open>cumple_v4\<close> of each row is 1 when
  the fetched \<^verbatim>\<open>has_f1\<close>, \<^verbatim>\<open>has_f2\<close> and \<^verbatim>\<open>has_f3\<close> of that row are all 1, and 0
  otherwise. Hence in every produced row \<^verbatim>\<open>cumple_v4\<close> is 1 exactly when the three
  indicators are 1 and 0 exactly when they are not, and two produced rows that agree on the
  three indicators agree on \<^verbatim>\<open>cumple_v4\<close>, whatever their other columns hold.
\<close>

theorem build_flags_cumple_v4:
  "map cumple_v4 (build_flags df) =
     map (\<lambda>r. if has_f1 r = 1 \<and> has_f2 r = 1 \<and> has_f3 r = 1 then 1 else 0) df \<and>
   map cmn_row.truncate (build_flags df) = df \<and>
   (\<forall>r \<in> set (build_flags df).
      (cumple_v4 r = 1 \<longleftrightarrow> has_f1 r = 1 \<and> has_f2 r = 1 \<and> has_f3 r = 1) \<and>
      (cumple_v4 r = 0 \<longleftrightarrow> \<not> (has_f1 r = 1 \<and> has_f2 r = 1 \<and> has_f3 r = 1))) \<and>
   (\<forall>r \<in> set (build_flags df). \<forall>r' \<in> set (build_flags df').
      has_f1 r = has_f1 r' \<and> has_f2 r = has_f2 r' \<and> has_f3 r = has_f3 r'
        \<longrightarrow> cumple_v4 r = cumple_v4 r')"
proof (intro conjI)
  show "map cumple_v4 (build_flags df) =
     map (\<lambda>r. if has_f1 r = 1 \<and> has_f2 r = 1 \<and> has_f3 r = 1 then 1 else 0) df"
    by (simp add: build_flags_def build_flags_row_v4 astype_int_def comp_def)
  show "map cmn_row.truncate (build_flags df) = df"
    by (simp add: build_flags_def build_flags_row_truncate comp_def)
  show "\<forall>r \<in> set (build_flags df).
      (cumple_v4 r = 1 \<longleftrightarrow> has_f1 r = 1 \<and> has_f2 r = 1 \<and> has_f3 r = 1) \<and>
      (cumple_v4 r = 0 \<longleftrightarrow> \<not> (has_f1 r = 1 \<and> has_f2 r = 1 \<and> has_f3 r = 1))"
    by (auto simp: build_flags_def build_flags_row_v4 build_flags_row_keeps astype_int_def)
  show "\<forall>r \<in> set (build_flags df). \<forall>r' \<in> set (build_flags df').
      has_f1 r = has_f1 r' \<and> has_f2 r = has_f2 r' \<and> has_f3 r = has_f3 r'
        \<longrightarrow> cumple_v4 r = cumple_v4 r'"
    by (auto simp: build_flags_def build_flags_row_v4 build_flags_row_keeps astype_int_def)
qed

theorem build_flags_cumple_v4_witness:
  "map cumple_v4 (build_flags cmn_base_example) = [1, 0, 0] \<and>
   map cmn_row.truncate (build_flags cmn_base_example) = cmn_base_example \<and>
   build_flags cmn_base_example ! 0 \<in> set (build_flags cmn_base_example) \<and>
   build_flags cmn_base_example ! 2 \<in> set (build_flags cmn_base_example) \<and>
   has_f1 (build_flags cmn_base_example ! 0) = 1 \<and>
   has_f2 (build_flags cmn_base_example ! 0) = 1 \<and>
   has_f3 (build_flags cmn_base_example ! 0) = 1 \<and>
   cumple_v4 (build_flags cmn_base_example ! 0) = 1 \<and>
   \<not> (has_f1 (build_flags cmn_base_example ! 2) = 1 \<and>
      has_f2 (build_flags cmn_base_example ! 2) = 1 \<and>
      has_f3 (build_flags cmn_base_example ! 2) = 1) \<and>
   cumple_v4 (build_flags cmn_base_example ! 2) = 0"
proof -
  let ?out = "build_flags cmn_base_example"
  note inst = build_flags_cumple_v4 [of cmn_base_example cmn_base_example]
  have len: "length ?out = 3" by (simp add: build_flags_def cmn_base_example_def)
  have m0: "?out ! 0 \<in> set ?out" by (rule nth_mem) (simp add: len)
  have m2: "?out ! 2 \<in> set ?out" by (rule nth_mem) (simp add: len)
  have v: "map (\<lambda>r. if has_f1 r = 1 \<and> has_f2 r = 1 \<and> has_f3 r = 1 then 1 else 0)
      cmn_base_example = [1, 0, 0::int]"
    by (simp add: cmn_base_example_def)
  have a: "map cumple_v4 ?out = [1, 0, 0]"
    using inst [THEN conjunct1] unfolding v .
  have b: "map cmn_row.truncate ?out = cmn_base_example"
    by (rule inst [THEN conjunct2, THEN conjunct1])
  have f0: "has_f1 (?out ! 0) = 1" "has_f2 (?out ! 0) = 1" "has_f3 (?out ! 0) = 1"
    by (simp_all add: build_flags_def cmn_base_example_def build_flags_row_keeps)
  have f2: "\<not> (has_f1 (?out ! 2) = 1 \<and> has_f2 (?out ! 2) = 1 \<and> has_f3 (?out ! 2) = 1)"
    by (simp add: build_flags_def cmn_base_example_def build_flags_row_keeps)
  note row0 = inst [THEN conjunct2, THEN conjunct2, THEN conjunct1, THEN bspec, OF m0]
  note row2 = inst [THEN conjunct2, THEN conjunct2, THEN conjunct1, THEN bspec, OF m2]
  have c0: "cumple_v4 (?out ! 0) = 1"
    by (rule row0 [THEN conjunct1, THEN iffD2]) (intro conjI f0)
  have c2: "cumple_v4 (?out ! 2) = 0"
    by (rule row2 [THEN conjunct2, THEN iffD2]) (rule f2)
  show ?thesis by (intro conjI a b m0 m2 f0 c0 f2 c2)
qed

section \<open>Retry wrapper: results\<close>

lemma retry_loop_calls:
  "calls (retry_loop func n a le sl) \<le> a + n"
proof (induction n arbitrary: a le sl)
  case 0
  then show ?case by simp
next
  case (Suc n)
  have "calls (retry_loop func n (Suc a) x y) \<le> Suc (a + n)" for x y
    using Suc [of "Suc a" x y] by simp
  then show ?case by (simp split: outcome.splits)
qed

lemma retry_loop_all_fail:
  "(\<And>j. a \<le> j \<Longrightarrow> j < a + n \<Longrightarrow> func j = RaisesRetryable (e j)) \<Longrightarrow>
   retry_loop func n a le sl =
     \<lparr>result = (if n = 0 then (case le of None \<Rightarrow> RaisedTypeError | Some x \<Rightarrow> Raised x)
                 else Raised (e (a + n - 1))),
      calls = a + n,
      sleeps = sl @ map (\<lambda>k. RETRY_DELAY_BASE * 2 ^ k) [a ..< a + n]\<rparr>"
proof (induction n arbitrary: a le sl)
  case 0
  then show ?case by simp
next
  case (Suc n)
  have f: "func a = RaisesRetryable (e a)" using Suc.prems [of a] by simp
  have ih: "retry_loop func n (Suc a) (Some (e a)) (sl @ [RETRY_DELAY_BASE * 2 ^ a]) =
     \<lparr>result = (if n = 0 then Raised (e a) else Raised (e (Suc a + n - 1))),
      calls = Suc a + n,
      sleeps = (sl @ [RETRY_DELAY_BASE * 2 ^ a]) @ map (\<lambda>k. RETRY_DELAY_BASE * 2 ^ k) [Suc a ..< Suc a + n]\<rparr>"
    using Suc.IH [of "Suc a" "Some (e a)" "sl @ [RETRY_DELAY_BASE * 2 ^ a]"] Suc.prems by simp
  show ?case
    by (simp add: f ih upt_conv_Cons del: upt_Suc)
qed

lemma retry_loop_first_success:
  "k < n \<Longrightarrow> (\<And>j. a \<le> j \<Longrightarrow> j < a + k \<Longrightarrow> func j = RaisesRetryable (e j)) \<Longrightarrow>
   func (a + k) = Returns v \<Longrightarrow>
   retry_loop func n a le sl =
     \<lparr>result = Returned v, calls = Suc (a + k),
      sleeps = sl @ map (\<lambda>j. RETRY_DELAY_BASE * 2 ^ j) [a ..< a + k]\<rparr>"
proof (induction k arbitrary: n a le sl)
  case 0
  then obtain m where "n = Suc m" by (cases n) auto
  with 0 show ?case by simp
next
  case (Suc k)
  then obtain m where n: "n = Suc m" and km: "k < m" by (cases n) auto
  have f: "func a = RaisesRetryable (e a)" using Suc.prems(2) [of a] by simp
  have "retry_loop func m (Suc a) (Some (e a)) (sl @ [RETRY_DELAY_BASE * 2 ^ a]) =
     \<lparr>result = Returned v, calls = Suc (Suc a + k),
      sleeps = (sl @ [RETRY_DELAY_BASE * 2 ^ a]) @ map (\<lambda>j. RETRY_DELAY_BASE * 2 ^ j) [Suc a ..< Suc a + k]\<rparr>"
    using Suc.IH [of m "Suc a" "Some (e a)" "sl @ [RETRY_DELAY_BASE * 2 ^ a]"] km Suc.prems(2,3) by simp
  then show ?case
    by (simp add: n f upt_conv_Cons del: upt_Suc)
qed

text \<open>
  C8. \<^verbatim>\<open>_retry_on_failure\<close> calls the wrapped function at most \<^verbatim>\<open>max_retries\<close> times
  (\<^verbatim>\<open>MAX_RETRIES = 3\<close> by default). If the call at attempt \<open>k\<close> is the first that does
  not raise, its value is returned after exactly \<open>k + 1\<close> calls, the sleeps so far being
  \<^verbatim>\<open>RETRY_DELAY_BASE * 2 ** j\<close> for the failed attempts \<open>j < k\<close>. If every attempt raises a
  retryable exception, the sleeps are \<^verbatim>\<open>RETRY_DELAY_BASE * 2 ** j\<close> for every attempt
  (2, 4, 8 seconds for the default) and the exception of the last attempt is raised.
\<close>

theorem retry_on_failure_backoff:
  "calls (retry_on_failure func max_retries) \<le> max_retries \<and>
   (\<forall>k v. k < max_retries \<and> (\<forall>j < k. func j = RaisesRetryable (e j)) \<and> func k = Returns v \<longrightarrow>
      retry_on_failure func max_retries =
        \<lparr>result = Returned v, calls = Suc k,
         sleeps = map (\<lambda>j. RETRY_DELAY_BASE * 2 ^ j) [0 ..< k]\<rparr>) \<and>
   (0 < max_retries \<and> (\<forall>j < max_retries. func j = RaisesRetryable (e j)) \<longrightarrow>
      retry_on_failure func max_retries =
        \<lparr>result = Raised (e (max_retries - 1)), calls = max_retries,
         sleeps = map (\<lambda>j. RETRY_DELAY_BASE * 2 ^ j) [0 ..< max_retries]\<rparr>) \<and>
   MAX_RETRIES = 3 \<and> map (\<lambda>j. RETRY_DELAY_BASE * 2 ^ j) [0 ..< MAX_RETRIES] = [2, 4, 8]"
proof (intro conjI allI impI)
  show "calls (retry_on_failure func max_retries) \<le> max_retries"
    using retry_loop_calls [of func max_retries 0 None "[]"] by (simp add: retry_on_failure_def)
next
  fix k v
  assume "k < max_retries \<and> (\<forall>j < k. func j = RaisesRetryable (e j)) \<and> func k = Returns v"
  then show "retry_on_failure func max_retries =
        \<lparr>result = Returned v, calls = Suc k,
         sleeps = map (\<lambda>j. RETRY_DELAY_BASE * 2 ^ j) [0 ..< k]\<rparr>"
    using retry_loop_first_success [of k max_retries 0 func e v None "[]"]
    by (simp add: retry_on_failure_def)
next
  assume "0 < max_retries \<and> (\<forall>j < max_retries. func j = RaisesRetryable (e j))"
  then show "retry_on_failure func max_retries =
        \<lparr>result = Raised (e (max_retries - 1)), calls = max_retries,
         sleeps = map (\<lambda>j. RETRY_DELAY_BASE * 2 ^ j) [0 ..< max_retries]\<rparr>"
    using retry_loop_all_fail [of 0 max_retries func e None "[]"]
    by (simp add: retry_on_failure_def)
next
  show "MAX_RETRIES = 3" by (simp add: MAX_RETRIES_def)
next
  show "map (\<lambda>j. RETRY_DELAY_BASE * 2 ^ j) [0 ..< MAX_RETRIES] = [2, 4, 8]"
    by (simp add: MAX_RETRIES_def RETRY_DELAY_BASE_def upt_conv_Cons)
qed

theorem retry_on_failure_backoff_witness:
  "retry_on_failure (\<lambda>k. if k < 2 then RaisesRetryable k else Returns True) MAX_RETRIES =
     \<lparr>result = Returned True, calls = 3, sleeps = [2, 4]\<rparr> \<and>
   retry_on_failure (\<lambda>k. (RaisesRetryable k :: (bool, nat) outcome)) MAX_RETRIES =
     \<lparr>result = Raised 2, calls = 3, sleeps = [2, 4, 8]\<rparr>"
proof -
  let ?f = "\<lambda>k::nat. if k < 2 then RaisesRetryable k else Returns True"
  let ?g = "\<lambda>k::nat. (RaisesRetryable k :: (bool, nat) outcome)"
  have m: "MAX_RETRIES = 3" by (simp add: MAX_RETRIES_def)
  have "(2::nat) < MAX_RETRIES \<and> (\<forall>j < 2. ?f j = RaisesRetryable j) \<and> ?f 2 = Returns True"
    by (simp add: m)
  with retry_on_failure_backoff [of ?f MAX_RETRIES "\<lambda>j. j"]
  have a: "retry_on_failure ?f MAX_RETRIES =
     \<lparr>result = Returned True, calls = Suc 2, sleeps = map (\<lambda>j. RETRY_DELAY_BASE * 2 ^ j) [0 ..< 2]\<rparr>"
    by blast
  have "0 < MAX_RETRIES \<and> (\<forall>j < MAX_RETRIES. ?g j = RaisesRetryable j)"
    by (simp add: m)
  with retry_on_failure_backoff [of ?g MAX_RETRIES "\<lambda>j. j"]
  have b: "retry_on_failure ?g MAX_RETRIES =
     \<lparr>result = Raised (MAX_RETRIES - 1), calls = MAX_RETRIES,
      sleeps = map (\<lambda>j. RETRY_DELAY_BASE * 2 ^ j) [0 ..< MAX_RETRIES]\<rparr>"
    by blast
  show ?thesis
    unfolding a b by (simp add: m RETRY_DELAY_BASE_def upt_conv_Cons)
qed

section \<open>Entity keys: results\<close>

lemma digits_filter_strip:
  "filter is_ascii_digit (filter (\<lambda>c. \<not> w c) (strip w s)) = filter is_ascii_digit (filter (\<lambda>c. \<not> w c) s)"
proof -
  have a: "filter (\<lambda>c. \<not> w c) (dropWhile w t) = filter (\<lambda>c. \<not> w c) t" for t
    by (induction t) auto
  have "filter (\<lambda>c. \<not> w c) (strip w s) = filter (\<lambda>c. \<not> w c) s"
    unfolding strip_def by (simp add: a flip: rev_filter)
  then show ?thesis by simp
qed

lemma norm_eq:
  "normalize_sec_ejec w maxd (PyStr s) = Inr (filter (\<lambda>c. is_ascii_digit c \<and> \<not> w c) s)"
  unfolding normalize_sec_ejec_def sub_non_0_9_def sub_spaces_def py_str_def
  by (simp only: pyvalue.case sum.case digits_filter_strip) (simp add: conj_commute)

lemma norm_none: "normalize_sec_ejec w maxd PyNone = Inr []"
  by (simp add: normalize_sec_ejec_def)

lemma norm_int_raises:
  assumes "0 < maxd" "maxd < length (digits_of_nat (nat \<bar>i\<bar>))"
  shows "normalize_sec_ejec w maxd (PyInt i) = Inl ValueError"
  using assms by (simp add: normalize_sec_ejec_def py_str_def str_of_int_def Let_def)

lemma norm_int_returns:
  assumes "maxd = 0 \<or> length (digits_of_nat (nat \<bar>i\<bar>)) \<le> maxd"
  shows "normalize_sec_ejec w maxd (PyInt i) =
     Inr (filter (\<lambda>c. is_ascii_digit c \<and> \<not> w c) (digits_of_nat (nat \<bar>i\<bar>)))"
proof -
  have n: "\<not> (0 < maxd \<and> maxd < length (digits_of_nat (nat \<bar>i\<bar>)))"
    using assms by auto
  have m: "\<not> is_ascii_digit 45" by (simp add: is_ascii_digit_def)
  have "normalize_sec_ejec w maxd (PyInt i) =
      normalize_sec_ejec w maxd
        (PyStr (if i < 0 then 45 # digits_of_nat (nat \<bar>i\<bar>) else digits_of_nat (nat \<bar>i\<bar>)))"
    using n by (simp add: normalize_sec_ejec_def py_str_def str_of_int_def Let_def)
  also have "\<dots> = Inr (filter (\<lambda>c. is_ascii_digit c \<and> \<not> w c) (digits_of_nat (nat \<bar>i\<bar>)))"
    unfolding norm_eq using m by simp
  finally show ?thesis .
qed

lemma norm_result:
  assumes "normalize_sec_ejec w maxd v = Inr k"
  shows "\<exists>s. k = filter (\<lambda>c. is_ascii_digit c \<and> \<not> w c) s"
proof (cases v)
  case PyNone
  with assms have "k = []" by (simp add: norm_none)
  then have "k = filter (\<lambda>c. is_ascii_digit c \<and> \<not> w c) []" by simp
  then show ?thesis ..
next
  case (PyStr s)
  with assms have "k = filter (\<lambda>c. is_ascii_digit c \<and> \<not> w c) s" by (simp add: norm_eq)
  then show ?thesis ..
next
  case (PyInt i)
  show ?thesis
  proof (cases "maxd = 0 \<or> length (digits_of_nat (nat \<bar>i\<bar>)) \<le> maxd")
    case True
    from norm_int_returns [OF True, of w] assms PyInt
    have "k = filter (\<lambda>c. is_ascii_digit c \<and> \<not> w c) (digits_of_nat (nat \<bar>i\<bar>))" by simp
    then show ?thesis ..
  next
    case False
    then have "0 < maxd" "maxd < length (digits_of_nat (nat \<bar>i\<bar>))" by auto
    from norm_int_raises [OF this, of w] assms PyInt show ?thesis by simp
  qed
qed

lemma norm_digits:
  assumes "normalize_sec_ejec w maxd v = Inr k" "c \<in> set k"
  shows "is_ascii_digit c"
proof -
  from norm_result [OF assms(1)] obtain s where "k = filter (\<lambda>c. is_ascii_digit c \<and> \<not> w c) s" ..
  with assms(2) show ?thesis by simp
qed

lemma norm_idem:
  assumes "normalize_sec_ejec w maxd v = Inr k"
  shows "normalize_sec_ejec w maxd (PyStr k) = Inr k"
proof -
  from norm_result [OF assms] obtain s where "k = filter (\<lambda>c. is_ascii_digit c \<and> \<not> w c) s" ..
  then show ?thesis by (simp add: norm_eq)
qed

lemma str_replace_agrees:
  assumes "\<forall>c. is_ascii_digit c \<longrightarrow> isdigit c \<and> \<not> w c"
    and "\<forall>c \<in> set s. isdigit c \<longrightarrow> is_ascii_digit c"
  shows "Inr (str_replace_nondigit isdigit (Some s)) = normalize_sec_ejec w maxd (PyStr s)"
proof -
  have "filter isdigit s = filter (\<lambda>c. is_ascii_digit c \<and> \<not> w c) s"
    using assms by (intro filter_cong) auto
  then show ?thesis
    by (simp add: str_replace_nondigit_def astype_str_def norm_eq)
qed

lemma digit_classes:
  "\<forall>c. is_ascii_digit c \<longrightarrow> ascii_or_arabic_indic_digit c \<and> \<not> py_isspace c"
  by (simp add: is_ascii_digit_def ascii_or_arabic_indic_digit_def py_isspace_def)

lemma digits_of_nat_power: "digits_of_nat (10 ^ k) = 49 # replicate k 48"
proof (induction k)
  case 0
  show ?case by (simp add: digits_of_nat.simps [of "Suc 0"])
next
  case (Suc k)
  have "\<not> (10::nat) ^ Suc k < 10" by simp
  then have "digits_of_nat (10 ^ Suc k) =
      digits_of_nat (10 ^ Suc k div 10) @ [48 + 10 ^ Suc k mod 10]"
    by (subst digits_of_nat.simps) (simp only: if_False)
  also have "\<dots> = digits_of_nat (10 ^ k) @ [48]" by simp
  also have "\<dots> = 49 # replicate (Suc k) 48"
    unfolding Suc.IH by (simp add: replicate_append_same)
  finally show ?case .
qed

lemma digits_of_int_power: "length (digits_of_nat (nat \<bar>(10::int) ^ k\<bar>)) = Suc k"
proof -
  have "nat \<bar>(10::int) ^ k\<bar> = 10 ^ k" by (simp add: nat_power_eq)
  then show ?thesis by (simp only: digits_of_nat_power length_Cons length_replicate)
qed

text \<open>
  C10 (amended). \<^verbatim>\<open>normalize_sec_ejec\<close> returns the empty string for None; for every string
  it returns the string's ASCII digits that are not whitespace, in order; for an integer it
  returns the digits of the decimal representation when their number does not exceed the
  interpreter's limit of integer-to-string conversion (4300 digits by default) or there is no
  limit, and raises \<^verbatim>\<open>ValueError\<close> otherwise. Whenever it returns, the result holds ASCII
  digits only and normalizing the result again leaves it unchanged; the result is empty for a
  string without ASCII digits. The pandas readers apply a different expression (delete every
  \<^verbatim>\<open>\D\<close> match) to the cell delivered by \<^verbatim>\<open>read_csv\<close>; on a cell (missing, or a string)
  that holds no decimal digit outside ASCII it gives the key that \<^verbatim>\<open>normalize_sec_ejec\<close>
  gives on that cell (None for a missing cell).
\<close>

theorem normalize_sec_ejec_idempotent:
  "normalize_sec_ejec isspace maxd PyNone = Inr [] \<and>
   normalize_sec_ejec isspace maxd (PyStr s) =
     Inr (filter (\<lambda>c. is_ascii_digit c \<and> \<not> isspace c) s) \<and>
   (maxd = 0 \<or> length (digits_of_nat (nat \<bar>i\<bar>)) \<le> maxd \<longrightarrow>
      normalize_sec_ejec isspace maxd (PyInt i) =
        Inr (filter (\<lambda>c. is_ascii_digit c \<and> \<not> isspace c) (digits_of_nat (nat \<bar>i\<bar>)))) \<and>
   (0 < maxd \<and> maxd < length (digits_of_nat (nat \<bar>i\<bar>)) \<longrightarrow>
      normalize_sec_ejec isspace maxd (PyInt i) = Inl ValueError) \<and>
   (normalize_sec_ejec isspace maxd v = Inr k \<longrightarrow>
      (\<forall>c \<in> set k. is_ascii_digit c) \<and> normalize_sec_ejec isspace maxd (PyStr k) = Inr k) \<and>
   ((\<forall>c \<in> set s. \<not> is_ascii_digit c) \<longrightarrow> normalize_sec_ejec isspace maxd (PyStr s) = Inr []) \<and>
   ((\<forall>c. is_ascii_digit c \<longrightarrow> isdigit c \<and> \<not> isspace c) \<and>
    (\<forall>c \<in> set (astype_str cell). isdigit c \<longrightarrow> is_ascii_digit c) \<longrightarrow>
      Inr (str_replace_nondigit isdigit cell) =
        normalize_sec_ejec isspace maxd (case cell of None \<Rightarrow> PyNone | Some t \<Rightarrow> PyStr t))"
proof (intro conjI impI ballI)
  show "normalize_sec_ejec isspace maxd PyNone = Inr []" by (rule norm_none)
  show "normalize_sec_ejec isspace maxd (PyStr s) =
     Inr (filter (\<lambda>c. is_ascii_digit c \<and> \<not> isspace c) s)" by (rule norm_eq)
  show "normalize_sec_ejec isspace maxd (PyInt i) =
        Inr (filter (\<lambda>c. is_ascii_digit c \<and> \<not> isspace c) (digits_of_nat (nat \<bar>i\<bar>)))"
    if "maxd = 0 \<or> length (digits_of_nat (nat \<bar>i\<bar>)) \<le> maxd"
    using that by (rule norm_int_returns)
  show "normalize_sec_ejec isspace maxd (PyInt i) = Inl ValueError"
    if "0 < maxd \<and> maxd < length (digits_of_nat (nat \<bar>i\<bar>))"
    using that [THEN conjunct1] that [THEN conjunct2] by (rule norm_int_raises)
  show "is_ascii_digit c" if "normalize_sec_ejec isspace maxd v = Inr k" "c \<in> set k" for c
    using that by (rule norm_digits)
  show "normalize_sec_ejec isspace maxd (PyStr k) = Inr k"
    if "normalize_sec_ejec isspace maxd v = Inr k"
    using that by (rule norm_idem)
  show "normalize_sec_ejec isspace maxd (PyStr s) = Inr []" if "\<forall>c \<in> set s. \<not> is_ascii_digit c"
    using that by (simp add: norm_eq)
  show "Inr (str_replace_nondigit isdigit cell) =
        normalize_sec_ejec isspace maxd (case cell of None \<Rightarrow> PyNone | Some t \<Rightarrow> PyStr t)"
    if h: "(\<forall>c. is_ascii_digit c \<longrightarrow> isdigit c \<and> \<not> isspace c) \<and>
       (\<forall>c \<in> set (astype_str cell). isdigit c \<longrightarrow> is_ascii_digit c)"
  proof (cases cell)
    case None
    from h have "\<forall>c \<in> set [110, 97, 110]. isdigit c \<longrightarrow> is_ascii_digit c"
      by (simp add: None astype_str_def)
    then have "\<not> isdigit 110" "\<not> isdigit 97"
      by (simp_all add: is_ascii_digit_def)
    with None show ?thesis
      by (simp add: str_replace_nondigit_def astype_str_def norm_none)
  next
    case (Some t)
    from h have "\<forall>c. is_ascii_digit c \<longrightarrow> isdigit c \<and> \<not> isspace c"
      and "\<forall>c \<in> set t. isdigit c \<longrightarrow> is_ascii_digit c"
      by (simp_all add: Some astype_str_def)
    then have "Inr (str_replace_nondigit isdigit (Some t)) = normalize_sec_ejec isspace maxd (PyStr t)"
      by (rule str_replace_agrees)
    with Some show ?thesis by simp
  qed
qed

theorem normalize_sec_ejec_idempotent_witness:
  "normalize_sec_ejec py_isspace default_max_str_digits (PyStr [32, 51, 48, 45, 48, 54, 56, 52, 10]) =
     Inr [51, 48, 48, 54, 56, 52] \<and>
   normalize_sec_ejec py_isspace default_max_str_digits (PyStr [51, 48, 48, 54, 56, 52]) =
     Inr [51, 48, 48, 54, 56, 52] \<and>
   is_ascii_digit 51 \<and>
   normalize_sec_ejec py_isspace default_max_str_digits (PyStr [78, 47, 65]) = Inr [] \<and>
   normalize_sec_ejec py_isspace default_max_str_digits (PyInt (- 300684)) =
     Inr [51, 48, 48, 54, 56, 52] \<and>
   0 < default_max_str_digits \<and>
   default_max_str_digits < length (digits_of_nat (nat \<bar>10 ^ default_max_str_digits\<bar>)) \<and>
   normalize_sec_ejec py_isspace default_max_str_digits (PyInt (10 ^ default_max_str_digits)) =
     Inl ValueError \<and>
   Inr (str_replace_nondigit ascii_or_arabic_indic_digit (Some [32, 51, 48, 45, 48, 54, 56, 52, 10])) =
     normalize_sec_ejec py_isspace default_max_str_digits (PyStr [32, 51, 48, 45, 48, 54, 56, 52, 10])"
proof -
  let ?s = "[32, 51, 48, 45, 48, 54, 56, 52, 10] :: pystr"
  let ?k = "[51, 48, 48, 54, 56, 52] :: pystr"
  let ?maxd = default_max_str_digits
  note inst = normalize_sec_ejec_idempotent
    [of py_isspace ?maxd ?s "- 300684" "PyStr ?s" ?k ascii_or_arabic_indic_digit "Some ?s"]
  note big = normalize_sec_ejec_idempotent
    [of py_isspace ?maxd ?s "10 ^ ?maxd" "PyStr ?s" ?k ascii_or_arabic_indic_digit "Some ?s"]
  note na = normalize_sec_ejec_idempotent
    [of py_isspace ?maxd "[78, 47, 65]" 0 "PyStr ?s" ?k ascii_or_arabic_indic_digit "Some ?s"]
  have f: "filter (\<lambda>c. is_ascii_digit c \<and> \<not> py_isspace c) ?s = ?k"
    by (simp add: is_ascii_digit_def py_isspace_def)
  have n: "normalize_sec_ejec py_isspace ?maxd (PyStr ?s) = Inr ?k"
    using inst [THEN conjunct2, THEN conjunct1] unfolding f .
  note res = inst [THEN conjunct2, THEN conjunct2, THEN conjunct2, THEN conjunct2,
      THEN conjunct1, THEN mp, OF n]
  have idem: "normalize_sec_ejec py_isspace ?maxd (PyStr ?k) = Inr ?k" by (rule res [THEN conjunct2])
  have dig: "is_ascii_digit 51" by (rule res [THEN conjunct1, THEN bspec]) simp
  have nd: "\<forall>c \<in> set [78, 47, 65]. \<not> is_ascii_digit c"
    by (simp add: is_ascii_digit_def)
  have e: "normalize_sec_ejec py_isspace ?maxd (PyStr [78, 47, 65]) = Inr []"
    by (rule na [THEN conjunct2, THEN conjunct2, THEN conjunct2, THEN conjunct2, THEN conjunct2,
          THEN conjunct1, THEN mp, OF nd])
  have d6: "digits_of_nat (nat \<bar>- 300684\<bar>) = ?k"
    by (simp add: digits_of_nat.simps [of 300684] digits_of_nat.simps [of 30068]
        digits_of_nat.simps [of 3006] digits_of_nat.simps [of 300] digits_of_nat.simps [of 30]
        digits_of_nat.simps [of 3])
  have small: "?maxd = 0 \<or> length (digits_of_nat (nat \<bar>- 300684\<bar>)) \<le> ?maxd"
    unfolding d6 by (simp add: default_max_str_digits_def)
  have fk: "filter (\<lambda>c. is_ascii_digit c \<and> \<not> py_isspace c) ?k = ?k"
    by (simp add: is_ascii_digit_def py_isspace_def)
  have i: "normalize_sec_ejec py_isspace ?maxd (PyInt (- 300684)) = Inr ?k"
    using inst [THEN conjunct2, THEN conjunct2, THEN conjunct1, THEN mp, OF small]
    unfolding d6 fk .
  have p: "0 < ?maxd" by (simp add: default_max_str_digits_def)
  have l: "?maxd < length (digits_of_nat (nat \<bar>10 ^ ?maxd\<bar>))"
    by (simp only: digits_of_int_power lessI)
  have r: "normalize_sec_ejec py_isspace ?maxd (PyInt (10 ^ ?maxd)) = Inl ValueError"
    by (rule big [THEN conjunct2, THEN conjunct2, THEN conjunct2, THEN conjunct1, THEN mp,
          OF conjI [OF p l]])
  have ag: "\<forall>c \<in> set (astype_str (Some ?s)). ascii_or_arabic_indic_digit c \<longrightarrow> is_ascii_digit c"
    by (simp add: astype_str_def is_ascii_digit_def ascii_or_arabic_indic_digit_def)
  have c: "Inr (str_replace_nondigit ascii_or_arabic_indic_digit (Some ?s)) =
      normalize_sec_ejec py_isspace ?maxd (case Some ?s of None \<Rightarrow> PyNone | Some t \<Rightarrow> PyStr t)"
    by (rule inst [THEN conjunct2, THEN conjunct2, THEN conjunct2, THEN conjunct2, THEN conjunct2,
          THEN conjunct2, THEN mp, OF conjI [OF digit_classes ag]])
  then have c': "Inr (str_replace_nondigit ascii_or_arabic_indic_digit (Some ?s)) =
      normalize_sec_ejec py_isspace ?maxd (PyStr ?s)"
    by (simp only: option.case)
  show ?thesis by (intro conjI n idem dig e i p l r c')
qed

text \<open>
  The claim as stated fails on a key written with Arabic-Indic digits (U+0663 U+0660
  U+0660): \<^verbatim>\<open>normalize_sec_ejec\<close> gives the empty key, the pandas readers keep the three
  digits, so the two sources do not agree on the key.
\<close>

theorem normalize_sec_ejec_single_counterexample:
  "normalize_sec_ejec py_isspace default_max_str_digits (PyStr [1635, 1632, 1632]) = Inr [] \<and>
   str_replace_nondigit ascii_or_arabic_indic_digit (Some [1635, 1632, 1632]) = [1635, 1632, 1632]"
  by (simp add: norm_eq str_replace_nondigit_def astype_str_def is_ascii_digit_def
      ascii_or_arabic_indic_digit_def)

section \<open>Data-frame operations: results\<close>

lemma drop_duplicates_set: "set (drop_duplicates id xs) = set xs"
proof (induction "length xs" arbitrary: xs rule: less_induct)
  case less
  show ?case
  proof (cases xs)
    case Nil
    then show ?thesis by simp
  next
    case (Cons x ys)
    have "length [y \<leftarrow> ys. id y \<noteq> id x] < length xs"
      using Cons by (simp add: less_Suc_eq_le)
    then have "set (drop_duplicates id [y \<leftarrow> ys. id y \<noteq> id x]) = set [y \<leftarrow> ys. id y \<noteq> id x]"
      by (rule less)
    with Cons show ?thesis by auto
  qed
qed

lemma drop_duplicates_subset: "set (drop_duplicates key xs) \<subseteq> set xs"
proof (induction "length xs" arbitrary: xs rule: less_induct)
  case less
  show ?case
  proof (cases xs)
    case Nil
    then show ?thesis by simp
  next
    case (Cons x ys)
    have "length [y \<leftarrow> ys. key y \<noteq> key x] < length xs"
      using Cons by (simp add: less_Suc_eq_le)
    then have "set (drop_duplicates key [y \<leftarrow> ys. key y \<noteq> key x]) \<subseteq> set [y \<leftarrow> ys. key y \<noteq> key x]"
      by (rule less)
    with Cons show ?thesis by auto
  qed
qed

lemma drop_duplicates_distinct: "distinct (map key (drop_duplicates key xs))"
proof (induction "length xs" arbitrary: xs rule: less_induct)
  case less
  show ?case
  proof (cases xs)
    case Nil
    then show ?thesis by simp
  next
    case (Cons x ys)
    let ?f = "[y \<leftarrow> ys. key y \<noteq> key x]"
    have "length ?f < length xs"
      using Cons by (simp add: less_Suc_eq_le)
    then have d: "distinct (map key (drop_duplicates key ?f))"
      by (rule less)
    have "key x \<notin> key ` set (drop_duplicates key ?f)"
      using drop_duplicates_subset [of key ?f] by auto
    with d Cons show ?thesis by simp
  qed
qed

lemma merge_outer_rows:
  "x \<in> set (merge_outer lkey rkey row left right) \<Longrightarrow> \<exists>k l r. x = row k l r"
  unfolding merge_outer_def Let_def
  by (auto split: if_splits)

lemma label_values:
  "label po pr \<in> set [''ALWAYS_IN'', ''SWITCHER'', ''ENTRY_ABSENT'', ''EXIT'', ''OTHER'']"
  by (simp add: label_def)

lemma group_of_label:
  "g_group_t1 (group_of k l r) \<in> set [''ALWAYS_IN'', ''SWITCHER'', ''ENTRY_ABSENT'', ''EXIT'', ''OTHER'']"
  unfolding group_of_def Let_def using label_values by simp

lemma build_groups_labels:
  "g \<in> set (snd (build_groups padron)) \<Longrightarrow>
   g_group_t1 g \<in> set [''ALWAYS_IN'', ''SWITCHER'', ''ENTRY_ABSENT'', ''EXIT'', ''OTHER'']"
proof -
  assume "g \<in> set (snd (build_groups padron))"
  then obtain k l r where "g = group_of k l r"
    unfolding build_groups_def Let_def snd_conv by (blast dest: merge_outer_rows)
  then show ?thesis using group_of_label by simp
qed

lemma filter_le_one:
  "distinct (map f xs) \<Longrightarrow> length [x \<leftarrow> xs. f x = k] \<le> 1"
proof (induction xs)
  case Nil
  then show ?case by simp
next
  case (Cons x xs)
  show ?case
  proof (cases "f x = k")
    case True
    with Cons.prems have "k \<notin> f ` set xs" by auto
    then have "[y \<leftarrow> xs. f y = k] = []" by (auto simp: filter_empty_conv)
    with True show ?thesis by simp
  next
    case False
    with Cons show ?thesis by simp
  qed
qed

lemma length_le_one_cases:
  "length xs \<le> 1 \<Longrightarrow> xs = [] \<or> (\<exists>x. xs = [x])"
  by (cases xs) auto

lemma concat_map_single: "concat (map (\<lambda>k. [k]) ks) = ks"
  by (induction ks) auto

lemma merge_outer_keys:
  assumes dl: "distinct (map lkey left)" and dr: "distinct (map rkey right)"
    and key: "\<And>k l r. key (row k l r) = k"
  shows "map key (merge_outer lkey rkey row left right) =
         sort (remdups (map lkey left @ map rkey right))"
proof -
  let ?keys = "sort (remdups (map lkey left @ map rkey right))"
  let ?block = "\<lambda>k. let ls = [l \<leftarrow> left. lkey l = k]; rs = [r \<leftarrow> right. rkey r = k]
        in if rs = [] then map (\<lambda>l. row k (Some l) None) ls
           else if ls = [] then map (\<lambda>r. row k None (Some r)) rs
           else concat (map (\<lambda>l. map (\<lambda>r. row k (Some l) (Some r)) rs) ls)"
  have b: "map key (?block k) = [k]" if k: "k \<in> set ?keys" for k
  proof -
    let ?ls = "[l \<leftarrow> left. lkey l = k]" and ?rs = "[r \<leftarrow> right. rkey r = k]"
    have l1: "?ls = [] \<or> (\<exists>x. ?ls = [x])"
      by (rule length_le_one_cases) (rule filter_le_one [OF dl])
    have r1: "?rs = [] \<or> (\<exists>x. ?rs = [x])"
      by (rule length_le_one_cases) (rule filter_le_one [OF dr])
    have ne: "?ls \<noteq> [] \<or> ?rs \<noteq> []"
      using k by (auto simp: filter_empty_conv)
    from l1 r1 ne show ?thesis
      by (auto simp: Let_def key)
  qed
  have "map key (concat (map ?block ?keys)) = concat (map (\<lambda>k. map key (?block k)) ?keys)"
    by (simp add: map_concat comp_def)
  also have "\<dots> = concat (map (\<lambda>k. [k]) ?keys)"
    by (rule arg_cong [where f = concat], rule map_cong [OF refl]) (rule b)
  also have "\<dots> = ?keys" by (rule concat_map_single)
  finally show ?thesis unfolding merge_outer_def .
qed

lemma merge_outer_key_set:
  assumes key: "\<And>k l r. key (row k l r) = k"
  shows "key ` set (merge_outer lkey rkey row left right) = lkey ` set left \<union> rkey ` set right"
proof -
  let ?block = "\<lambda>k. let ls = [l \<leftarrow> left. lkey l = k]; rs = [r \<leftarrow> right. rkey r = k]
        in if rs = [] then map (\<lambda>l. row k (Some l) None) ls
           else if ls = [] then map (\<lambda>r. row k None (Some r)) rs
           else concat (map (\<lambda>l. map (\<lambda>r. row k (Some l) (Some r)) rs) ls)"
  have sub: "key ` set (?block k) \<subseteq> {k}" for k
  proof
    fix y assume "y \<in> key ` set (?block k)"
    then obtain x where x: "x \<in> set (?block k)" and y: "y = key x" by blast
    from x have "\<exists>l r. x = row k l r"
      unfolding Let_def by (auto split: if_splits)
    with y show "y \<in> {k}" by (auto simp: key)
  qed
  have ne: "?block k \<noteq> []" if "k \<in> lkey ` set left \<union> rkey ` set right" for k
  proof -
    have "[l \<leftarrow> left. lkey l = k] \<noteq> [] \<or> [r \<leftarrow> right. rkey r = k] \<noteq> []"
      using that by (auto simp: filter_empty_conv)
    then show ?thesis
      by (cases "[l \<leftarrow> left. lkey l = k]"; cases "[r \<leftarrow> right. rkey r = k]")
        (simp_all add: Let_def)
  qed
  have eq: "key ` set (?block k) = {k}" if "k \<in> lkey ` set left \<union> rkey ` set right" for k
  proof -
    from ne [OF that] obtain x where "x \<in> set (?block k)" by (cases "?block k") auto
    with sub [of k] show ?thesis by blast
  qed
  have keys: "set (sort (remdups (map lkey left @ map rkey right))) =
      lkey ` set left \<union> rkey ` set right"
    by simp
  have "merge_outer lkey rkey row left right =
      concat (map ?block (sort (remdups (map lkey left @ map rkey right))))"
    unfolding merge_outer_def by (rule refl)
  then have "set (merge_outer lkey rkey row left right) =
      (\<Union>k \<in> set (sort (remdups (map lkey left @ map rkey right))). set (?block k))"
    by (simp only: set_concat set_map image_image)
  then have "key ` set (merge_outer lkey rkey row left right) =
        (\<Union>k \<in> lkey ` set left \<union> rkey ` set right. key ` set (?block k))"
    unfolding keys by (simp only: image_UN)
  also have "\<dots> = (\<Union>k \<in> lkey ` set left \<union> rkey ` set right. {k})"
    by (rule SUP_cong [OF refl]) (rule eq)
  also have "\<dots> = lkey ` set left \<union> rkey ` set right" by simp
  finally show ?thesis .
qed

lemma merge_left_rows:
  assumes "x \<in> set (merge_left on row left right)"
  shows "\<exists>l \<in> set left. (x = row l None \<and> filter (on l) right = []) \<or>
           (\<exists>r \<in> set right. on l r \<and> x = row l (Some r))"
proof -
  from assms obtain l where l: "l \<in> set left"
    and x: "x \<in> set (case filter (on l) right of [] \<Rightarrow> [row l None]
                      | rs \<Rightarrow> map (\<lambda>r. row l (Some r)) rs)"
    unfolding merge_left_def by auto
  show ?thesis
  proof (cases "filter (on l) right")
    case Nil
    with x l show ?thesis by auto
  next
    case (Cons a as)
    with x obtain r where "r \<in> set (filter (on l) right)" "x = row l (Some r)" by auto
    with l show ?thesis by auto
  qed
qed

lemma merge_left_functional:
  assumes "\<And>l. l \<in> set left \<Longrightarrow> length (filter (on l) right) \<le> 1"
  shows "merge_left on row left right =
         map (\<lambda>l. row l (case filter (on l) right of [] \<Rightarrow> None | r # _ \<Rightarrow> Some r)) left"
proof -
  have "(case filter (on l) right of [] \<Rightarrow> [row l None] | rs \<Rightarrow> map (\<lambda>r. row l (Some r)) rs) =
        [row l (case filter (on l) right of [] \<Rightarrow> None | r # _ \<Rightarrow> Some r)]"
    if "l \<in> set left" for l
    using length_le_one_cases [OF assms [OF that]] by auto
  then have "map (\<lambda>l. case filter (on l) right of [] \<Rightarrow> [row l None]
                       | rs \<Rightarrow> map (\<lambda>r. row l (Some r)) rs) left =
             map (\<lambda>l. [row l (case filter (on l) right of [] \<Rightarrow> None | r # _ \<Rightarrow> Some r)]) left"
    by (intro map_cong refl)
  then show ?thesis
    unfolding merge_left_def by (simp only: concat_map_singleton)
qed

section \<open>Adoption groups: results\<close>

lemma build_groups_fst: "fst (build_groups padron) = muni_padron padron"
  by (simp add: build_groups_def Let_def muni_padron_def)

lemma build_groups_snd:
  "snd (build_groups padron) =
     merge_outer fst fst group_of
       (groupby_pre_status [r \<leftarrow> muni_padron padron. isin (p_anio r) [2022, 2023, 2024]])
       (drop_duplicates id
          (map (\<lambda>r. (p_sec_ejec r, siga_implementado r))
             [r \<leftarrow> muni_padron padron. p_anio r = Some 2025]))"
  by (simp add: build_groups_def Let_def muni_padron_def)

lemma group_of_key: "g_sec_ejec (group_of k l r) = k"
  by (simp add: group_of_def Let_def)

lemma groupby_pre_status_keys:
  "map fst (groupby_pre_status rows) = sort (remdups (map p_sec_ejec rows))"
  by (simp add: groupby_pre_status_def comp_def)

lemma muni_padron_years:
  assumes "r \<in> set (muni_padron padron)"
  shows "isin (p_anio r) [2022, 2023, 2024] \<or> p_anio r = Some 2025"
proof -
  from assms have "isin (p_anio r) [2022, 2023, 2024, 2025]"
    by (simp add: muni_padron_def)
  then show ?thesis
    by (cases "p_anio r") (auto simp: isin_def)
qed

lemma build_groups_entities:
  "g_sec_ejec ` set (snd (build_groups padron)) = p_sec_ejec ` set (fst (build_groups padron))"
proof -
  let ?muni = "muni_padron padron"
  let ?pre = "[r \<leftarrow> ?muni. isin (p_anio r) [2022, 2023, 2024]]"
  let ?post = "[r \<leftarrow> ?muni. p_anio r = Some 2025]"
  have a: "fst ` set (groupby_pre_status ?pre) = p_sec_ejec ` set ?pre"
  proof -
    have "fst ` set (groupby_pre_status ?pre) = set (map fst (groupby_pre_status ?pre))"
      by simp
    also have "\<dots> = p_sec_ejec ` set ?pre"
      by (simp only: groupby_pre_status_keys set_sort set_remdups set_map)
    finally show ?thesis .
  qed
  have b: "fst ` set (drop_duplicates id (map (\<lambda>r. (p_sec_ejec r, siga_implementado r)) ?post)) =
      p_sec_ejec ` set ?post"
    by (simp only: drop_duplicates_set set_map image_image fst_conv)
  have c: "set ?pre \<union> set ?post = set ?muni"
    using muni_padron_years [of _ padron] by auto
  have "g_sec_ejec ` set (snd (build_groups padron)) =
      fst ` set (groupby_pre_status ?pre) \<union>
      fst ` set (drop_duplicates id (map (\<lambda>r. (p_sec_ejec r, siga_implementado r)) ?post))"
    unfolding build_groups_snd by (rule merge_outer_key_set) (rule group_of_key)
  also have "\<dots> = p_sec_ejec ` (set ?pre \<union> set ?post)"
    unfolding a b by (simp only: image_Un)
  finally show ?thesis
    unfolding c build_groups_fst .
qed

lemma group_map_values:
  "group_map padron se = Some g \<Longrightarrow> g \<in> set [''ALWAYS_IN'', ''ENTRY'', ''EXIT'']"
  by (simp add: group_map_def assign_group_def split: if_splits)

lemma group_map_dom: "dom (group_map padron) = pre_ues padron \<union> post_ues padron"
  by (auto simp: group_map_def dom_def split: if_splits)

text \<open>
  C3 (amended). Every group row of \<^verbatim>\<open>build_groups\<close> carries one of the five labels
  ALWAYS\_IN, SWITCHER, ENTRY\_ABSENT, EXIT, OTHER, and the group rows cover exactly the entities
  of the municipal roster; \<^verbatim>\<open>assign_group\<close>, applied to the entities of
  \<^verbatim>\<open>pre_ues | post_ues\<close>, yields one of ALWAYS\_IN, ENTRY, EXIT. The label ENTRY of the
  claim is not a label of \<^verbatim>\<open>build_groups\<close>, which writes ENTRY\_ABSENT.
\<close>
theorem group_label_values:
  "(\<forall>g \<in> set (snd (build_groups padron)).
      g_group_t1 g \<in> set [''ALWAYS_IN'', ''SWITCHER'', ''ENTRY_ABSENT'', ''EXIT'', ''OTHER'']) \<and>
   g_sec_ejec ` set (snd (build_groups padron)) = p_sec_ejec ` set (fst (build_groups padron)) \<and>
   (\<forall>se g. group_map padron se = Some g \<longrightarrow> g \<in> set [''ALWAYS_IN'', ''ENTRY'', ''EXIT'']) \<and>
   dom (group_map padron) = pre_ues padron \<union> post_ues padron"
proof (intro conjI ballI allI impI)
  fix g assume "g \<in> set (snd (build_groups padron))"
  then show "g_group_t1 g \<in> set [''ALWAYS_IN'', ''SWITCHER'', ''ENTRY_ABSENT'', ''EXIT'', ''OTHER'']"
    by (rule build_groups_labels)
next
  show "g_sec_ejec ` set (snd (build_groups padron)) = p_sec_ejec ` set (fst (build_groups padron))"
    by (rule build_groups_entities)
next
  fix se g assume "group_map padron se = Some g"
  then show "g \<in> set [''ALWAYS_IN'', ''ENTRY'', ''EXIT'']" by (rule group_map_values)
next
  show "dom (group_map padron) = pre_ues padron \<union> post_ues padron" by (rule group_map_dom)
qed

theorem group_label_values_witness:
  "hd (snd (build_groups padron_example)) \<in> set (snd (build_groups padron_example)) \<and>
   g_group_t1 (hd (snd (build_groups padron_example))) \<in>
     set [''ALWAYS_IN'', ''SWITCHER'', ''ENTRY_ABSENT'', ''EXIT'', ''OTHER''] \<and>
   group_map padron_example ''300003'' = Some ''ENTRY'' \<and>
   ''ENTRY'' \<in> set [''ALWAYS_IN'', ''ENTRY'', ''EXIT'']"
proof -
  note inst = group_label_values [of padron_example]
  have ne: "snd (build_groups padron_example) \<noteq> []" by code_simp
  have m: "hd (snd (build_groups padron_example)) \<in> set (snd (build_groups padron_example))"
    using ne by (rule hd_in_set)
  have gm: "group_map padron_example ''300003'' = Some ''ENTRY''" by code_simp
  have a: "g_group_t1 (hd (snd (build_groups padron_example))) \<in>
     set [''ALWAYS_IN'', ''SWITCHER'', ''ENTRY_ABSENT'', ''EXIT'', ''OTHER'']"
    by (rule inst [THEN conjunct1, THEN bspec, OF m])
  have b: "''ENTRY'' \<in> set [''ALWAYS_IN'', ''ENTRY'', ''EXIT'']"
    by (rule inst [THEN conjunct2, THEN conjunct2, THEN conjunct1, THEN spec, THEN spec, THEN mp,
          OF gm])
  show ?thesis by (intro conjI m a gm b)
qed

text \<open>An entity present only in 2025 with status SI is labelled ENTRY\_ABSENT.\<close>

theorem group_label_values_counterexample:
  "map g_group_t1 (snd (build_groups [muni_row ''300002'' 2025 ''SI''])) = [''ENTRY_ABSENT''] \<and>
   ''ENTRY_ABSENT'' \<notin> set [''ALWAYS_IN'', ''SWITCHER'', ''ENTRY'', ''EXIT'', ''OTHER'']"
  by code_simp

section \<open>Stability of the group label: results\<close>

lemma label_cases:
  "(label po pr = ''ALWAYS_IN'' \<longleftrightarrow> po = ''SI'' \<and> pr = ''SI'') \<and>
   (label po pr = ''SWITCHER'' \<longleftrightarrow> po = ''SI'' \<and> pr = ''NO'') \<and>
   (label po pr = ''ENTRY_ABSENT'' \<longleftrightarrow> po = ''SI'' \<and> pr = ''ABSENT'') \<and>
   (label po pr = ''EXIT'' \<longleftrightarrow> po = ''ABSENT'' \<and> pr = ''SI'') \<and>
   (label po pr = ''OTHER'' \<longleftrightarrow>
      \<not> (po = ''SI'' \<and> pr = ''SI'') \<and> \<not> (po = ''SI'' \<and> pr = ''NO'') \<and>
      \<not> (po = ''SI'' \<and> pr = ''ABSENT'') \<and> \<not> (po = ''ABSENT'' \<and> pr = ''SI''))"
  by (simp add: label_def)

lemma muni_padron_subset: "set (muni_padron padron) \<subseteq> set padron"
  by (auto simp: muni_padron_def)

lemma groups_distinct:
  assumes "single_post_status padron"
  shows "distinct (map g_sec_ejec (snd (build_groups padron)))"
proof -
  let ?muni = "muni_padron padron"
  let ?pre = "[r \<leftarrow> ?muni. isin (p_anio r) [2022, 2023, 2024]]"
  let ?pairs = "map (\<lambda>r. (p_sec_ejec r, siga_implementado r)) [r \<leftarrow> ?muni. p_anio r = Some 2025]"
  have dl: "distinct (map fst (groupby_pre_status ?pre))"
    by (simp only: groupby_pre_status_keys distinct_sort distinct_remdups)
  have d: "distinct (drop_duplicates id ?pairs)"
    using drop_duplicates_distinct [of id ?pairs] by simp
  have inj: "inj_on fst (set (drop_duplicates id ?pairs))"
  proof (rule inj_onI)
    fix x y
    assume x: "x \<in> set (drop_duplicates id ?pairs)" and y: "y \<in> set (drop_duplicates id ?pairs)"
      and e: "fst x = fst y"
    from x have "x \<in> (\<lambda>r. (p_sec_ejec r, siga_implementado r)) `
        {r \<in> set ?muni. p_anio r = Some 2025}"
      unfolding drop_duplicates_set by simp
    then obtain r where r: "r \<in> set ?muni" "p_anio r = Some 2025"
      "x = (p_sec_ejec r, siga_implementado r)"
      by (elim imageE CollectE conjE)
    from y have "y \<in> (\<lambda>r. (p_sec_ejec r, siga_implementado r)) `
        {r \<in> set ?muni. p_anio r = Some 2025}"
      unfolding drop_duplicates_set by simp
    then obtain r' where r': "r' \<in> set ?muni" "p_anio r' = Some 2025"
      "y = (p_sec_ejec r', siga_implementado r')"
      by (elim imageE CollectE conjE)
    from r(1) r'(1) muni_padron_subset [of padron] have
      rp: "r \<in> set padron" and rp': "r' \<in> set padron" by (simp_all add: subset_iff)
    from assms have "\<forall>r \<in> set padron. \<forall>r' \<in> set padron.
        p_anio r = Some 2025 \<and> p_anio r' = Some 2025 \<and> p_sec_ejec r = p_sec_ejec r'
          \<longrightarrow> siga_implementado r = siga_implementado r'"
      unfolding single_post_status_def .
    from this [THEN bspec, OF rp, THEN bspec, OF rp'] r(2,3) r'(2,3) e
    have "siga_implementado r = siga_implementado r'" by simp
    with r(3) r'(3) e show "x = y" by simp
  qed
  have dr: "distinct (map fst (drop_duplicates id ?pairs))"
    using d inj by (simp add: distinct_map)
  have "map g_sec_ejec (snd (build_groups padron)) =
      sort (remdups (map fst (groupby_pre_status ?pre) @ map fst (drop_duplicates id ?pairs)))"
    unfolding build_groups_snd by (rule merge_outer_keys [OF dl dr]) (rule group_of_key)
  then show ?thesis by (simp only: distinct_sort distinct_remdups)
qed

lemma t1_row_of_fields:
  "b_sec_ejec (t1_row_of bs g) = b_sec_ejec (fst bs)"
  "b_anio (t1_row_of bs g) = b_anio (fst bs)"
  "group_t1 (t1_row_of bs g) = map_option g_group_t1 g"
  by (simp_all add: t1_row_of_def Let_def budget_row.extend_def)

lemma build_panel_rows:
  assumes "r \<in> set (build_panel presupuesto muni groups)"
  shows "(group_t1 r = None \<and> (\<forall>g \<in> set groups. b_sec_ejec r \<noteq> Some (g_sec_ejec g))) \<or>
         (\<exists>g \<in> set groups. b_sec_ejec r = Some (g_sec_ejec g) \<and> group_t1 r = Some (g_group_t1 g))"
proof -
  let ?padron_year = "drop_duplicates id
      (map (\<lambda>r. (p_sec_ejec r, p_anio r, siga_implementado r)) muni)"
  let ?panel = "merge_left
      (\<lambda>b y. b_sec_ejec b = Some (fst y) \<and> Some (b_anio b) = fst (snd y))
      (\<lambda>b y. (b, case y of None \<Rightarrow> None | Some z \<Rightarrow> snd (snd z)))
      presupuesto ?padron_year"
  from assms have
    "r \<in> set (merge_left (\<lambda>bs g. b_sec_ejec (fst bs) = Some (g_sec_ejec g)) t1_row_of ?panel groups)"
    unfolding build_panel_def Let_def .
  from merge_left_rows [OF this] obtain bs where
    c: "(r = t1_row_of bs None \<and> filter (\<lambda>g. b_sec_ejec (fst bs) = Some (g_sec_ejec g)) groups = []) \<or>
        (\<exists>g \<in> set groups. b_sec_ejec (fst bs) = Some (g_sec_ejec g) \<and> r = t1_row_of bs (Some g))"
    by blast
  then show ?thesis
  proof
    assume a: "r = t1_row_of bs None \<and>
      filter (\<lambda>g. b_sec_ejec (fst bs) = Some (g_sec_ejec g)) groups = []"
    then have "\<forall>g \<in> set groups. b_sec_ejec (fst bs) \<noteq> Some (g_sec_ejec g)"
      by (simp add: filter_empty_conv)
    with a show ?thesis by (simp add: t1_row_of_fields)
  next
    assume "\<exists>g \<in> set groups. b_sec_ejec (fst bs) = Some (g_sec_ejec g) \<and> r = t1_row_of bs (Some g)"
    then obtain g where "g \<in> set groups" "b_sec_ejec (fst bs) = Some (g_sec_ejec g)"
      "r = t1_row_of bs (Some g)" by blast
    then have "g \<in> set groups \<and> b_sec_ejec r = Some (g_sec_ejec g) \<and> group_t1 r = Some (g_group_t1 g)"
      by (simp add: t1_row_of_fields)
    then show ?thesis by blast
  qed
qed

lemma panel_group_functional:
  assumes d: "distinct (map g_sec_ejec groups)"
    and r: "r \<in> set (build_panel presupuesto muni groups)"
    and r': "r' \<in> set (build_panel presupuesto' muni' groups)"
    and e: "b_sec_ejec r = b_sec_ejec r'"
  shows "group_t1 r = group_t1 r'"
proof -
  have inj: "inj_on g_sec_ejec (set groups)"
    using d by (simp add: distinct_map)
  from build_panel_rows [OF r] build_panel_rows [OF r'] show ?thesis
  proof (elim disjE conjE bexE)
    assume "group_t1 r = None" "group_t1 r' = None"
    then show ?thesis by simp
  next
    fix g assume "\<forall>g \<in> set groups. b_sec_ejec r \<noteq> Some (g_sec_ejec g)"
      "g \<in> set groups" "b_sec_ejec r' = Some (g_sec_ejec g)"
    with e show ?thesis by metis
  next
    fix g assume "\<forall>g \<in> set groups. b_sec_ejec r' \<noteq> Some (g_sec_ejec g)"
      "g \<in> set groups" "b_sec_ejec r = Some (g_sec_ejec g)"
    with e show ?thesis by metis
  next
    fix g g' assume g: "g \<in> set groups" "b_sec_ejec r = Some (g_sec_ejec g)"
      "group_t1 r = Some (g_group_t1 g)"
      and g': "g' \<in> set groups" "b_sec_ejec r' = Some (g_sec_ejec g')"
      "group_t1 r' = Some (g_group_t1 g')"
    from g g' e have "g_sec_ejec g = g_sec_ejec g'" by simp
    with inj g g' have "g = g'" by (simp add: inj_on_def)
    with g g' show ?thesis by simp
  qed
qed

lemma padron_largo_2025:
  assumes "r \<in> set (padron_largo hist_rows rows_2025)" "p_anio r = Some 2025"
  shows "siga_implementado r = Some ''SI''"
proof -
  have y: "year_of y \<noteq> 2025" for y by (cases y) simp_all
  from assms(1) consider
    (hist) h where "r = (case h of (sec, y, status, cat) \<Rightarrow>
            \<lparr>p_sec_ejec = sec, p_anio = Some (year_of y), siga_implementado = status,
             categoria = cat\<rparr>)"
    | (new) h where "r = (case h of (sec, cat) \<Rightarrow>
            \<lparr>p_sec_ejec = sec, p_anio = Some 2025, siga_implementado = Some ''SI'',
             categoria = cat\<rparr>)"
    unfolding padron_largo_def by auto
  then show ?thesis
  proof cases
    case hist
    with assms(2) y show ?thesis by (cases h) simp
  next
    case new
    then show ?thesis by (cases h) simp
  qed
qed

lemma padron_largo_single_post_status: "single_post_status (padron_largo hist_rows rows_2025)"
  unfolding single_post_status_def
proof (intro ballI impI)
  fix r r'
  assume r: "r \<in> set (padron_largo hist_rows rows_2025)"
    and r': "r' \<in> set (padron_largo hist_rows rows_2025)"
    and h: "p_anio r = Some 2025 \<and> p_anio r' = Some 2025 \<and> p_sec_ejec r = p_sec_ejec r'"
  from padron_largo_2025 [OF r h [THEN conjunct1]]
    padron_largo_2025 [OF r' h [THEN conjunct2, THEN conjunct1]]
  show "siga_implementado r = siga_implementado r'" by simp
qed

lemma filter_eq_one:
  assumes d: "distinct (map f xs)" and k: "k \<in> f ` set xs"
  shows "length [x \<leftarrow> xs. f x = k] = 1"
proof -
  from k obtain x where "x \<in> set xs" "f x = k" by (elim imageE) simp
  then have "[x \<leftarrow> xs. f x = k] \<noteq> []"
    unfolding filter_empty_conv by (intro notI) (elim ballE [of _ _ x], simp_all)
  then have "1 \<le> length [x \<leftarrow> xs. f x = k]" by (cases "[x \<leftarrow> xs. f x = k]") simp_all
  with filter_le_one [OF d, of k] show ?thesis by simp
qed

lemma panel_group_of_entity:
  assumes d: "distinct (map g_sec_ejec groups)"
    and r: "r \<in> set (build_panel presupuesto muni groups)"
    and g: "g \<in> set groups"
    and e: "b_sec_ejec r = Some (g_sec_ejec g)"
  shows "group_t1 r = Some (g_group_t1 g)"
proof -
  have inj: "inj_on g_sec_ejec (set groups)"
    using d by (simp add: distinct_map)
  from build_panel_rows [OF r] show ?thesis
  proof (elim disjE conjE bexE)
    assume "\<forall>g \<in> set groups. b_sec_ejec r \<noteq> Some (g_sec_ejec g)"
    from this [THEN bspec, OF g] e show ?thesis by simp
  next
    fix g' assume g': "g' \<in> set groups" "b_sec_ejec r = Some (g_sec_ejec g')"
      "group_t1 r = Some (g_group_t1 g')"
    from g' e have "g_sec_ejec g' = g_sec_ejec g" by simp
    with inj g g'(1) have "g' = g" by (simp add: inj_on_def)
    with g'(3) show ?thesis by simp
  qed
qed

lemma build_groups_label_of:
  assumes "g \<in> set (snd (build_groups padron))"
  shows "g_group_t1 g = label (g_post_siga g) (g_pre_siga g)"
proof -
  from assms obtain k l r where "g = group_of k l r"
    unfolding build_groups_def Let_def snd_conv by (blast dest: merge_outer_rows)
  then show ?thesis by (simp add: group_of_def Let_def)
qed

text \<open>
  C4. The five cases of \<^verbatim>\<open>label\<close> are exhaustive and pairwise exclusive, and the
  label of every group row is \<^verbatim>\<open>label\<close> of its two statuses. Every roster
  written by \<^verbatim>\<open>padron_export.py\<close> holds a single 2025 status per entity (the literal SI).
  On every roster with a single 2025 status per entity, \<^verbatim>\<open>build_groups\<close> returns exactly
  one group row, hence exactly one label, for every entity of the municipal roster; every row
  of the panel of \<^verbatim>\<open>build_panel\<close> whose entity has a group row carries the label of that
  row as \<^verbatim>\<open>group_t1\<close>, in every year; and any two panel rows of one entity carry the same
  \<^verbatim>\<open>group_t1\<close>.
\<close>

theorem group_labels_exclusive_stable:
  "(label po pr = ''ALWAYS_IN'' \<longleftrightarrow> po = ''SI'' \<and> pr = ''SI'') \<and>
   (label po pr = ''SWITCHER'' \<longleftrightarrow> po = ''SI'' \<and> pr = ''NO'') \<and>
   (label po pr = ''ENTRY_ABSENT'' \<longleftrightarrow> po = ''SI'' \<and> pr = ''ABSENT'') \<and>
   (label po pr = ''EXIT'' \<longleftrightarrow> po = ''ABSENT'' \<and> pr = ''SI'') \<and>
   (label po pr = ''OTHER'' \<longleftrightarrow>
      \<not> (po = ''SI'' \<and> pr = ''SI'') \<and> \<not> (po = ''SI'' \<and> pr = ''NO'') \<and>
      \<not> (po = ''SI'' \<and> pr = ''ABSENT'') \<and> \<not> (po = ''ABSENT'' \<and> pr = ''SI'')) \<and>
   (\<forall>g \<in> set (snd (build_groups padron)). g_group_t1 g = label (g_post_siga g) (g_pre_siga g)) \<and>
   single_post_status (padron_largo hist_rows rows_2025) \<and>
   (single_post_status padron \<longrightarrow>
      (\<forall>se \<in> p_sec_ejec ` set (fst (build_groups padron)).
         length [g \<leftarrow> snd (build_groups padron). g_sec_ejec g = se] = 1) \<and>
      distinct (map g_sec_ejec (snd (build_groups padron))) \<and>
      (\<forall>r \<in> set (main_t1 presupuesto padron). \<forall>g \<in> set (snd (build_groups padron)).
         b_sec_ejec r = Some (g_sec_ejec g) \<longrightarrow> group_t1 r = Some (g_group_t1 g)) \<and>
      (\<forall>r \<in> set (main_t1 presupuesto padron). \<forall>r' \<in> set (main_t1 presupuesto padron).
         b_sec_ejec r = b_sec_ejec r' \<longrightarrow> group_t1 r = group_t1 r'))"
proof -
  have stable: "single_post_status padron \<longrightarrow>
      (\<forall>se \<in> p_sec_ejec ` set (fst (build_groups padron)).
         length [g \<leftarrow> snd (build_groups padron). g_sec_ejec g = se] = 1) \<and>
      distinct (map g_sec_ejec (snd (build_groups padron))) \<and>
      (\<forall>r \<in> set (main_t1 presupuesto padron). \<forall>g \<in> set (snd (build_groups padron)).
         b_sec_ejec r = Some (g_sec_ejec g) \<longrightarrow> group_t1 r = Some (g_group_t1 g)) \<and>
      (\<forall>r \<in> set (main_t1 presupuesto padron). \<forall>r' \<in> set (main_t1 presupuesto padron).
         b_sec_ejec r = b_sec_ejec r' \<longrightarrow> group_t1 r = group_t1 r')"
  proof (rule impI)
    assume s: "single_post_status padron"
    have d: "distinct (map g_sec_ejec (snd (build_groups padron)))"
      using s by (rule groups_distinct)
    have one: "length [g \<leftarrow> snd (build_groups padron). g_sec_ejec g = se] = 1"
      if "se \<in> p_sec_ejec ` set (fst (build_groups padron))" for se
    proof -
      from that have "se \<in> g_sec_ejec ` set (snd (build_groups padron))"
        by (simp only: build_groups_entities)
      with d show ?thesis by (rule filter_eq_one)
    qed
    have rows: "group_t1 r = Some (g_group_t1 g)"
      if "r \<in> set (main_t1 presupuesto padron)" "g \<in> set (snd (build_groups padron))"
        "b_sec_ejec r = Some (g_sec_ejec g)" for r g
    proof -
      from that(1) have r: "r \<in> set (build_panel presupuesto (fst (build_groups padron))
          (snd (build_groups padron)))"
        unfolding main_t1_def Let_def case_prod_beta .
      from d r that(2,3) show ?thesis by (rule panel_group_of_entity)
    qed
    have same: "group_t1 r = group_t1 r'"
      if "r \<in> set (main_t1 presupuesto padron)" "r' \<in> set (main_t1 presupuesto padron)"
        "b_sec_ejec r = b_sec_ejec r'" for r r'
      using that unfolding main_t1_def Let_def case_prod_beta
      by (rule panel_group_functional [OF d])
    show "(\<forall>se \<in> p_sec_ejec ` set (fst (build_groups padron)).
         length [g \<leftarrow> snd (build_groups padron). g_sec_ejec g = se] = 1) \<and>
      distinct (map g_sec_ejec (snd (build_groups padron))) \<and>
      (\<forall>r \<in> set (main_t1 presupuesto padron). \<forall>g \<in> set (snd (build_groups padron)).
         b_sec_ejec r = Some (g_sec_ejec g) \<longrightarrow> group_t1 r = Some (g_group_t1 g)) \<and>
      (\<forall>r \<in> set (main_t1 presupuesto padron). \<forall>r' \<in> set (main_t1 presupuesto padron).
         b_sec_ejec r = b_sec_ejec r' \<longrightarrow> group_t1 r = group_t1 r')"
    proof (intro conjI ballI impI)
      show "distinct (map g_sec_ejec (snd (build_groups padron)))" by (rule d)
    qed (rule one rows same; assumption)+
  qed
  note exported = padron_largo_single_post_status [of hist_rows rows_2025]
  have labelled: "\<forall>g \<in> set (snd (build_groups padron)).
      g_group_t1 g = label (g_post_siga g) (g_pre_siga g)"
    by (rule ballI) (rule build_groups_label_of)
  from label_cases [of po pr] stable exported labelled show ?thesis
    by (elim conjE) (intro conjI; assumption)
qed

theorem group_labels_exclusive_stable_witness:
  "single_post_status (padron_largo hist_example rows_2025_example) \<and>
   ''300001'' \<in> p_sec_ejec ` set (fst (build_groups (padron_largo hist_example rows_2025_example))) \<and>
   length [g \<leftarrow> snd (build_groups (padron_largo hist_example rows_2025_example)).
             g_sec_ejec g = ''300001''] = 1 \<and>
   main_t1 budget_example (padron_largo hist_example rows_2025_example) ! 0
     \<in> set (main_t1 budget_example (padron_largo hist_example rows_2025_example)) \<and>
   main_t1 budget_example (padron_largo hist_example rows_2025_example) ! 1
     \<in> set (main_t1 budget_example (padron_largo hist_example rows_2025_example)) \<and>
   snd (build_groups (padron_largo hist_example rows_2025_example)) ! 0
     \<in> set (snd (build_groups (padron_largo hist_example rows_2025_example))) \<and>
   g_group_t1 (snd (build_groups (padron_largo hist_example rows_2025_example)) ! 0) =
     ''ALWAYS_IN'' \<and>
   b_sec_ejec (main_t1 budget_example (padron_largo hist_example rows_2025_example) ! 0) =
     Some (g_sec_ejec (snd (build_groups (padron_largo hist_example rows_2025_example)) ! 0)) \<and>
   b_sec_ejec (main_t1 budget_example (padron_largo hist_example rows_2025_example) ! 1) =
     Some (g_sec_ejec (snd (build_groups (padron_largo hist_example rows_2025_example)) ! 0)) \<and>
   b_anio (main_t1 budget_example (padron_largo hist_example rows_2025_example) ! 0) = 2024 \<and>
   b_anio (main_t1 budget_example (padron_largo hist_example rows_2025_example) ! 1) = 2025 \<and>
   group_t1 (main_t1 budget_example (padron_largo hist_example rows_2025_example) ! 0) =
     Some ''ALWAYS_IN'' \<and>
   group_t1 (main_t1 budget_example (padron_largo hist_example rows_2025_example) ! 1) =
     Some ''ALWAYS_IN'' \<and>
   distinct (map g_sec_ejec (snd (build_groups (padron_largo hist_example rows_2025_example))))"
proof -
  let ?padron = "padron_largo hist_example rows_2025_example"
  let ?p = "main_t1 budget_example ?padron"
  let ?g = "snd (build_groups ?padron)"
  note inst0 = group_labels_exclusive_stable
    [of "''SI''" "''SI''" ?padron hist_example rows_2025_example budget_example]
  note s = inst0 [THEN conjunct2, THEN conjunct2, THEN conjunct2, THEN conjunct2, THEN conjunct2,
      THEN conjunct2, THEN conjunct1]
  note inst = inst0 [THEN conjunct2, THEN conjunct2, THEN conjunct2, THEN conjunct2,
      THEN conjunct2, THEN conjunct2, THEN conjunct2, THEN mp, OF s]
  note lab_of = inst0 [THEN conjunct2, THEN conjunct2, THEN conjunct2, THEN conjunct2,
      THEN conjunct2, THEN conjunct1]
  have e: "''300001'' \<in> p_sec_ejec ` set (fst (build_groups ?padron))" by code_simp
  have one: "length [g \<leftarrow> ?g. g_sec_ejec g = ''300001''] = 1"
    by (rule inst [THEN conjunct1, THEN bspec, OF e])
  have len: "length ?p = 3" by code_simp
  have leng: "length ?g = 4" by code_simp
  have m0: "?p ! 0 \<in> set ?p" by (rule nth_mem) (simp add: len)
  have m1: "?p ! 1 \<in> set ?p" by (rule nth_mem) (simp add: len)
  have g0: "?g ! 0 \<in> set ?g" by (rule nth_mem) (simp add: leng)
  have st: "g_post_siga (?g ! 0) = ''SI''" "g_pre_siga (?g ! 0) = ''SI''" by code_simp+
  have lab: "g_group_t1 (?g ! 0) = ''ALWAYS_IN''"
    using lab_of [THEN bspec, OF g0] unfolding st by (simp add: label_def)
  have k0: "b_sec_ejec (?p ! 0) = Some (g_sec_ejec (?g ! 0))" by code_simp
  have k1: "b_sec_ejec (?p ! 1) = Some (g_sec_ejec (?g ! 0))" by code_simp
  have y0: "b_anio (?p ! 0) = 2024" by code_simp
  have y1: "b_anio (?p ! 1) = 2025" by code_simp
  note rows = inst [THEN conjunct2, THEN conjunct2, THEN conjunct1]
  have t0: "group_t1 (?p ! 0) = Some ''ALWAYS_IN''"
    using rows [THEN bspec, OF m0, THEN bspec, OF g0, THEN mp, OF k0] unfolding lab .
  have t1: "group_t1 (?p ! 1) = Some ''ALWAYS_IN''"
    using rows [THEN bspec, OF m1, THEN bspec, OF g0, THEN mp, OF k1] unfolding lab .
  have d: "distinct (map g_sec_ejec ?g)"
    by (rule inst [THEN conjunct2, THEN conjunct1])
  show ?thesis by (intro conjI s e one m0 m1 g0 lab k0 k1 y0 y1 t0 t1 d)
qed

section \<open>Merges with the compliance frame: results\<close>

lemma filter_key_le_one:
  assumes d: "distinct (map f xs)" and p: "\<And>x. P x \<Longrightarrow> f x = k"
  shows "length (filter P xs) \<le> 1"
proof -
  have "filter P xs = filter P [x \<leftarrow> xs. f x = k]"
    unfolding filter_filter by (rule filter_cong [OF refl]) (use p in blast)
  then have "length (filter P xs) \<le> length [x \<leftarrow> xs. f x = k]"
    by (simp only: length_filter_le)
  also have "\<dots> \<le> 1" by (rule filter_le_one [OF d])
  finally show ?thesis .
qed

lemma filter_same_le_one:
  assumes d: "distinct xs" and e: "\<And>x y. x \<in> set xs \<Longrightarrow> y \<in> set xs \<Longrightarrow> P x \<Longrightarrow> P y \<Longrightarrow> x = y"
  shows "length (filter P xs) \<le> 1"
proof (cases "filter P xs")
  case Nil
  then show ?thesis by simp
next
  case (Cons a as)
  have da: "distinct (a # as)" using d Cons [symmetric] by simp
  have "as = []"
  proof (cases as)
    case Nil
    then show ?thesis .
  next
    case (Cons b bs)
    have "a \<in> set (filter P xs)" "b \<in> set (filter P xs)"
      using \<open>filter P xs = a # as\<close> Cons by simp_all
    then have "a = b" using e by simp
    with da Cons show ?thesis by simp
  qed
  with Cons show ?thesis by simp
qed

lemma cmn_cols_distinct: "distinct (map (\<lambda>c. (fst c, fst (snd c))) (cmn_cols cmn))"
  unfolding cmn_cols_def by (rule drop_duplicates_distinct)

lemma cmn_match_le_one:
  "length (filter (\<lambda>c. b_sec_ejec t = Some (fst c) \<and> b_anio t = fst (snd c)) (cmn_cols cmn)) \<le> 1"
proof (cases "b_sec_ejec t")
  case None
  then show ?thesis by simp
next
  case (Some s)
  show ?thesis
    by (rule filter_key_le_one [OF cmn_cols_distinct, where k = "(s, b_anio t)"])
      (simp add: Some)
qed

lemma t1_cmn_row_of_fields:
  "panel_key (t1_cmn_row_of t c) = panel_key t"
  "group_t1 (t1_cmn_row_of t c) = group_t1 t"
  by (simp_all add: t1_cmn_row_of_def t1_row.extend_def panel_key_def)

lemma did_row_of_key: "panel_key (did_row_of r) = panel_key r"
  by (simp add: did_row_of_def Let_def t1_cmn_row.extend_def panel_key_def)

lemma merge_cmn_map:
  "merge_cmn t1 cmn =
     map (\<lambda>t. t1_cmn_row_of t
            (case filter (\<lambda>c. b_sec_ejec t = Some (fst c) \<and> b_anio t = fst (snd c)) (cmn_cols cmn)
             of [] \<Rightarrow> None | r # _ \<Rightarrow> Some r)) t1"
  unfolding merge_cmn_def by (rule merge_left_functional) (rule cmn_match_le_one)

lemma did_build_panel_keys:
  "map panel_key (did_build_panel t1 cmn) =
     map panel_key [t \<leftarrow> t1. isin (group_t1 t) [''ALWAYS_IN'', ''SWITCHER'']]"
  unfolding did_build_panel_def merge_cmn_map
  by (simp add: filter_map comp_def t1_cmn_row_of_fields did_row_of_key)

lemma did_build_panel_distinct:
  assumes "distinct (map panel_key t1)"
  shows "distinct (map panel_key (did_build_panel t1 cmn))"
  unfolding did_build_panel_keys using assms by (rule distinct_map_filter)

lemma padron_year_match_le_one:
  assumes s: "single_year_status muni"
  shows "length (filter (\<lambda>y. b_sec_ejec b = Some (fst y) \<and> Some (b_anio b) = fst (snd y))
           (drop_duplicates id (map (\<lambda>r. (p_sec_ejec r, p_anio r, siga_implementado r)) muni))) \<le> 1"
proof (rule filter_same_le_one)
  let ?t = "map (\<lambda>r. (p_sec_ejec r, p_anio r, siga_implementado r)) muni"
  show "distinct (drop_duplicates id ?t)"
    using drop_duplicates_distinct [of id ?t] by simp
  fix x y
  assume x: "x \<in> set (drop_duplicates id ?t)" and y: "y \<in> set (drop_duplicates id ?t)"
    and px: "b_sec_ejec b = Some (fst x) \<and> Some (b_anio b) = fst (snd x)"
    and py: "b_sec_ejec b = Some (fst y) \<and> Some (b_anio b) = fst (snd y)"
  from x have "x \<in> (\<lambda>r. (p_sec_ejec r, p_anio r, siga_implementado r)) ` set muni"
    unfolding drop_duplicates_set by simp
  then obtain r where r: "r \<in> set muni" "x = (p_sec_ejec r, p_anio r, siga_implementado r)"
    by (elim imageE)
  from y have "y \<in> (\<lambda>r. (p_sec_ejec r, p_anio r, siga_implementado r)) ` set muni"
    unfolding drop_duplicates_set by simp
  then obtain r' where r': "r' \<in> set muni" "y = (p_sec_ejec r', p_anio r', siga_implementado r')"
    by (elim imageE)
  from s have "\<forall>r \<in> set muni. \<forall>r' \<in> set muni.
      p_anio r = p_anio r' \<and> p_sec_ejec r = p_sec_ejec r'
        \<longrightarrow> siga_implementado r = siga_implementado r'"
    unfolding single_year_status_def .
  from this [THEN bspec, OF r(1), THEN bspec, OF r'(1)] px py r(2) r'(2)
  have "siga_implementado r = siga_implementado r'" by simp
  with px py r(2) r'(2) show "x = y" by simp
qed

lemma group_match_le_one:
  assumes "distinct (map g_sec_ejec groups)"
  shows "length (filter (\<lambda>g. b_sec_ejec (fst bs) = Some (g_sec_ejec g)) groups) \<le> 1"
proof (cases "b_sec_ejec (fst bs)")
  case None
  then show ?thesis by simp
next
  case (Some s)
  show ?thesis
    by (rule filter_key_le_one [OF assms, where k = s]) (simp add: Some)
qed

lemma t1_row_of_key: "panel_key (t1_row_of bs g) = panel_key (fst bs)"
  by (simp add: panel_key_def t1_row_of_fields)

lemma build_panel_keys:
  assumes s: "single_year_status muni" and d: "distinct (map g_sec_ejec groups)"
  shows "map panel_key (build_panel presupuesto muni groups) = map panel_key presupuesto"
  unfolding build_panel_def Let_def
  by (simp only: merge_left_functional [OF padron_year_match_le_one [OF s]]
      merge_left_functional [OF group_match_le_one [OF d]] map_map comp_def t1_row_of_key fst_conv)

lemma truncate_fields:
  "p_sec_ejec (padron_row.truncate r) = p_sec_ejec r"
  "p_anio (padron_row.truncate r) = p_anio r"
  "siga_implementado (padron_row.truncate r) = siga_implementado r"
  "categoria (padron_row.truncate r) = categoria r"
  by (simp_all add: padron_row.truncate_def)

lemma truncate_roster_key:
  "padron_row.truncate r =
     \<lparr>p_sec_ejec = fst (roster_key r), p_anio = fst (snd (roster_key r)),
      siga_implementado = fst (snd (snd (roster_key r))),
      categoria = snd (snd (snd (roster_key r)))\<rparr>"
  by (simp add: padron_row.truncate_def roster_key_def)

lemma roster_key_truncate:
  assumes "map roster_key padron1 = map roster_key padron2"
  shows "map padron_row.truncate padron1 = map padron_row.truncate padron2"
proof -
  let ?mk = "\<lambda>k. \<lparr>p_sec_ejec = fst k, p_anio = fst (snd k),
      siga_implementado = fst (snd (snd k)), categoria = snd (snd (snd k))\<rparr>"
  have a: "map padron_row.truncate padron1 = map ?mk (map roster_key padron1)"
    by (simp add: truncate_roster_key comp_def)
  have b: "map padron_row.truncate padron2 = map ?mk (map roster_key padron2)"
    by (simp add: truncate_roster_key comp_def)
  show ?thesis unfolding a b by (simp only: assms)
qed

lemma muni_padron_truncate:
  "muni_padron (map padron_row.truncate padron) = map padron_row.truncate (muni_padron padron)"
  by (simp add: muni_padron_def filter_map comp_def truncate_fields)

lemma groupby_pre_status_truncate:
  "groupby_pre_status (map padron_row.truncate rows) = groupby_pre_status rows"
  by (simp add: groupby_pre_status_def filter_map comp_def truncate_fields)

lemma build_groups_truncate:
  "snd (build_groups (map padron_row.truncate padron)) = snd (build_groups padron)"
  unfolding build_groups_snd muni_padron_truncate
  by (simp add: filter_map comp_def truncate_fields groupby_pre_status_truncate
      groupby_pre_status_truncate [of "filter P rows" for P rows, unfolded filter_map comp_def truncate_fields])

lemma pre_ues_truncate: "pre_ues (map padron_row.truncate padron) = pre_ues padron"
  by (simp add: pre_ues_def muni_padron_truncate filter_map comp_def truncate_fields)

lemma post_ues_truncate: "post_ues (map padron_row.truncate padron) = post_ues padron"
  by (simp add: post_ues_def muni_padron_truncate filter_map comp_def truncate_fields)

lemma group_map_truncate: "group_map (map padron_row.truncate padron) = group_map padron"
  by (rule ext) (simp add: group_map_def pre_ues_truncate post_ues_truncate)

lemma build_groups_roster:
  assumes "map roster_key padron1 = map roster_key padron2"
  shows "snd (build_groups padron1) = snd (build_groups padron2)"
  using build_groups_truncate [of padron1] build_groups_truncate [of padron2]
    roster_key_truncate [OF assms] by simp

lemma group_map_roster:
  assumes "map roster_key padron1 = map roster_key padron2"
  shows "group_map padron1 = group_map padron2"
  using group_map_truncate [of padron1] group_map_truncate [of padron2]
    roster_key_truncate [OF assms] by simp

lemma ob_row_of_fields:
  "b_sec_ejec (ob_row_of padron b c) = Some (sec_ejec_digits (b_sec_ejec b))"
  "o_group (ob_row_of padron b c) = group_map padron (sec_ejec_digits (b_sec_ejec b))"
  by (simp_all add: ob_row_of_def budget_row.extend_def)

lemma ob_build_panel_rows:
  assumes "r \<in> set (ob_build_panel budget cmn padron)"
  shows "\<exists>se. b_sec_ejec r = Some se \<and> o_group r = group_map padron se"
proof -
  from assms have "r \<in> set (merge_left
      (\<lambda>b c. sec_ejec_digits (b_sec_ejec b) = fst c \<and> b_anio b = fst (snd c))
      (ob_row_of padron) budget (cmn_cols cmn))"
    unfolding ob_build_panel_def by simp
  from merge_left_rows [OF this] obtain b c where "r = ob_row_of padron b c"
    by blast
  then show ?thesis by (simp add: ob_row_of_fields)
qed

lemma ob_cmn_match_le_one:
  "length (filter (\<lambda>c. sec_ejec_digits (b_sec_ejec b) = fst c \<and> b_anio b = fst (snd c))
     (cmn_cols cmn)) \<le> 1"
  by (rule filter_key_le_one [OF cmn_cols_distinct,
        where k = "(sec_ejec_digits (b_sec_ejec b), b_anio b)"]) auto

lemma ob_build_panel_groups:
  "map o_group (ob_build_panel budget cmn padron) =
     [g \<leftarrow> map (\<lambda>b. group_map padron (sec_ejec_digits (b_sec_ejec b))) budget.
        isin g [''ALWAYS_IN'', ''ENTRY'']]"
  unfolding ob_build_panel_def
  by (subst merge_left_functional, rule ob_cmn_match_le_one)
     (simp add: filter_map comp_def ob_row_of_fields)

section \<open>Group assignment depends on the roster only: results\<close>

text \<open>
  C5. If two rosters agree on the columns (sec\_ejec, anio, siga\_implementado, categoria),
  row by row, then \<^verbatim>\<open>build_groups\<close> returns the same groups and \<^verbatim>\<open>assign_group\<close> the same
  entity-to-group mapping, whatever else the rosters hold; and the group of every row of the
  Oaxaca-Blinder panel is that mapping applied to the row's key, for every budget frame and
  every compliance frame.
\<close>

theorem group_assignment_roster_only:
  assumes "map roster_key padron1 = map roster_key padron2"
  shows "snd (build_groups padron1) = snd (build_groups padron2) \<and>
    group_map padron1 = group_map padron2 \<and>
    (\<forall>r \<in> set (ob_build_panel budget cmn padron1).
       \<exists>se. b_sec_ejec r = Some se \<and> o_group r = group_map padron2 se)"
proof (intro conjI ballI)
  show "snd (build_groups padron1) = snd (build_groups padron2)"
    using assms by (rule build_groups_roster)
  show gm: "group_map padron1 = group_map padron2"
    using assms by (rule group_map_roster)
  fix r assume "r \<in> set (ob_build_panel budget cmn padron1)"
  then have "\<exists>se. b_sec_ejec r = Some se \<and> o_group r = group_map padron1 se"
    by (rule ob_build_panel_rows)
  then show "\<exists>se. b_sec_ejec r = Some se \<and> o_group r = group_map padron2 se"
    unfolding gm .
qed

theorem group_assignment_roster_only_witness:
  "map roster_key padron_example = map roster_key padron_example_sourced \<and>
   snd (build_groups padron_example) = snd (build_groups padron_example_sourced) \<and>
   group_map padron_example = group_map padron_example_sourced \<and>
   ob_build_panel budget_example [cmn_of ''300001'' 2025 1] padron_example \<noteq> [] \<and>
   (\<exists>se. b_sec_ejec (hd (ob_build_panel budget_example [cmn_of ''300001'' 2025 1] padron_example)) = Some se \<and>
      o_group (hd (ob_build_panel budget_example [cmn_of ''300001'' 2025 1] padron_example)) =
        group_map padron_example_sourced se)"
proof -
  let ?p = "ob_build_panel budget_example [cmn_of ''300001'' 2025 1] padron_example"
  have h: "map roster_key padron_example = map roster_key padron_example_sourced" by code_simp
  have "map o_group ?p \<noteq> []" unfolding ob_build_panel_groups by code_simp
  then have ne: "?p \<noteq> []" by simp
  note inst = group_assignment_roster_only [OF h, of budget_example "[cmn_of ''300001'' 2025 1]"]
  have a: "snd (build_groups padron_example) = snd (build_groups padron_example_sourced)"
    by (rule inst [THEN conjunct1])
  have b: "group_map padron_example = group_map padron_example_sourced"
    by (rule inst [THEN conjunct2, THEN conjunct1])
  have c: "\<exists>se. b_sec_ejec (hd ?p) = Some se \<and> o_group (hd ?p) = group_map padron_example_sourced se"
    by (rule inst [THEN conjunct2, THEN conjunct2, THEN bspec, OF hd_in_set [OF ne]])
  show ?thesis by (intro conjI h a b ne c)
qed

section \<open>Panel keys: results\<close>

text \<open>
  C6 (amended). The deduplicated compliance columns have unique (sec\_ejec, anio) keys. The
  DiD panel has exactly the keys of the ALWAYS\_IN and SWITCHER rows of the T1 panel, in order,
  so its keys are unique if those of the T1 panel are; and the T1 panel has exactly the keys of
  the budget panel when every (entity, year) of the roster has one status and every entity has
  one group row. Neither builder deduplicates its base frame on (sec\_ejec, anio).
\<close>

theorem panel_keys_after_dedup:
  "distinct (map (\<lambda>c. (fst c, fst (snd c))) (cmn_cols cmn)) \<and>
   map panel_key (did_build_panel t1 cmn) =
     map panel_key [t \<leftarrow> t1. isin (group_t1 t) [''ALWAYS_IN'', ''SWITCHER'']] \<and>
   (distinct (map panel_key t1) \<longrightarrow> distinct (map panel_key (did_build_panel t1 cmn))) \<and>
   (single_year_status muni \<and> distinct (map g_sec_ejec groups) \<longrightarrow>
      map panel_key (build_panel presupuesto muni groups) = map panel_key presupuesto)"
proof (intro conjI impI)
  show "distinct (map (\<lambda>c. (fst c, fst (snd c))) (cmn_cols cmn))"
    by (rule cmn_cols_distinct)
  show "map panel_key (did_build_panel t1 cmn) =
     map panel_key [t \<leftarrow> t1. isin (group_t1 t) [''ALWAYS_IN'', ''SWITCHER'']]"
    by (rule did_build_panel_keys)
  show "distinct (map panel_key (did_build_panel t1 cmn))" if "distinct (map panel_key t1)"
    using that by (rule did_build_panel_distinct)
  show "map panel_key (build_panel presupuesto muni groups) = map panel_key presupuesto"
    if "single_year_status muni \<and> distinct (map g_sec_ejec groups)"
    using that [THEN conjunct1] that [THEN conjunct2] by (rule build_panel_keys)
qed

theorem panel_keys_after_dedup_witness:
  "distinct (map panel_key (main_t1 budget_example padron_example)) \<and>
   distinct (map panel_key (did_build_panel (main_t1 budget_example padron_example)
      [cmn_of ''300001'' 2025 1, cmn_of ''300001'' 2025 0])) \<and>
   single_year_status (fst (build_groups padron_example)) \<and>
   distinct (map g_sec_ejec (snd (build_groups padron_example))) \<and>
   map panel_key (build_panel budget_example (fst (build_groups padron_example))
      (snd (build_groups padron_example))) = map panel_key budget_example"
proof -
  let ?t1 = "main_t1 budget_example padron_example"
  let ?cmn = "[cmn_of ''300001'' 2025 1, cmn_of ''300001'' 2025 0]"
  let ?muni = "fst (build_groups padron_example)" and ?groups = "snd (build_groups padron_example)"
  note inst = panel_keys_after_dedup [of ?cmn ?t1 ?muni ?groups budget_example]
  have d: "distinct (map panel_key ?t1)" by code_simp
  have s: "single_year_status ?muni" by code_simp
  have g: "distinct (map g_sec_ejec ?groups)" by code_simp
  have a: "distinct (map panel_key (did_build_panel ?t1 ?cmn))"
    by (rule inst [THEN conjunct2, THEN conjunct2, THEN conjunct1, THEN mp, OF d])
  have b: "map panel_key (build_panel budget_example ?muni ?groups) = map panel_key budget_example"
    by (rule inst [THEN conjunct2, THEN conjunct2, THEN conjunct2, THEN mp, OF conjI [OF s g]])
  show ?thesis by (intro conjI d a s g b)
qed

text \<open>
  A budget frame with two rows for (300001, 2024) keeps both through \<^verbatim>\<open>build_panel\<close> and
  through the DiD \<^verbatim>\<open>build_panel\<close>.
\<close>

theorem panel_keys_after_dedup_counterexample:
  "map panel_key (main_t1 budget_duplicated padron_example) =
     [(Some ''300001'', 2024), (Some ''300001'', 2024)] \<and>
   map panel_key (did_build_panel (main_t1 budget_duplicated padron_example)
      [cmn_of ''300001'' 2024 1, cmn_of ''300001'' 2024 1]) =
     [(Some ''300001'', 2024), (Some ''300001'', 2024)]"
  unfolding did_build_panel_keys by code_simp

section \<open>Bootstrap intervals: results\<close>

lemma round_half_even_bounds:
  "\<lfloor>x\<rfloor> \<le> round_half_even x" "round_half_even x \<le> \<lfloor>x\<rfloor> + 1"
  by (simp_all add: round_half_even_def Let_def)

lemma round_half_even_mono:
  assumes "x \<le> y"
  shows "round_half_even x \<le> round_half_even y"
proof (cases "\<lfloor>x\<rfloor> = \<lfloor>y\<rfloor>")
  case True
  from assms have "x - real_of_int \<lfloor>y\<rfloor> \<le> y - real_of_int \<lfloor>y\<rfloor>" by simp
  then show ?thesis
    unfolding round_half_even_def Let_def True by auto
next
  case False
  with assms have "\<lfloor>x\<rfloor> < \<lfloor>y\<rfloor>" using floor_mono [OF assms] by simp
  then have "\<lfloor>x\<rfloor> + 1 \<le> \<lfloor>y\<rfloor>" by simp
  with round_half_even_bounds(2) [of x] round_half_even_bounds(1) [of y]
  show ?thesis by linarith
qed

lemma round2_mono:
  assumes "x \<le> y"
  shows "round2 x \<le> round2 y"
proof -
  from assms have "x * 100 \<le> y * 100" by simp
  then have "round_half_even (x * 100) \<le> round_half_even (y * 100)"
    by (rule round_half_even_mono)
  then show ?thesis unfolding round2_def by (simp add: divide_right_mono)
qed

lemma interp_mono:
  fixes s :: "real list" and h1 h2 :: real
  assumes srt: "sorted s" and n: "0 < length s"
    and h: "0 \<le> h1" "h1 \<le> h2" "h2 \<le> real (length s - 1)"
  shows "s ! nat \<lfloor>h1\<rfloor> +
           (s ! min (nat \<lfloor>h1\<rfloor> + 1) (length s - 1) - s ! nat \<lfloor>h1\<rfloor>) * (h1 - real (nat \<lfloor>h1\<rfloor>))
       \<le> s ! nat \<lfloor>h2\<rfloor> +
           (s ! min (nat \<lfloor>h2\<rfloor> + 1) (length s - 1) - s ! nat \<lfloor>h2\<rfloor>) * (h2 - real (nat \<lfloor>h2\<rfloor>))"
proof -
  define l1 where "l1 = nat \<lfloor>h1\<rfloor>"
  define l2 where "l2 = nat \<lfloor>h2\<rfloor>"
  define u1 where "u1 = min (l1 + 1) (length s - 1)"
  define u2 where "u2 = min (l2 + 1) (length s - 1)"
  define g1 where "g1 = h1 - real l1"
  define g2 where "g2 = h2 - real l2"
  from h have h2nn: "0 \<le> h2" by simp
  have r1: "real l1 = real_of_int \<lfloor>h1\<rfloor>" unfolding l1_def using h(1) by simp
  have r2: "real l2 = real_of_int \<lfloor>h2\<rfloor>" unfolding l2_def using h2nn by simp
  have g1b: "0 \<le> g1" "g1 \<le> 1" unfolding g1_def r1 by linarith+
  have g2b: "0 \<le> g2" "g2 \<le> 1" unfolding g2_def r2 by linarith+
  have l12: "l1 \<le> l2" unfolding l1_def l2_def using floor_mono [OF h(2)] by simp
  have "real l2 \<le> real (length s - 1)" unfolding r2 using h(3) by linarith
  then have l2n: "l2 \<le> length s - 1" by simp
  then have l2lt: "l2 < length s" using n by linarith
  have l1lt: "l1 < length s" using l12 l2lt by simp
  have pred: "length s - 1 < length s" using n by simp
  have u1lt: "u1 < length s" unfolding u1_def using pred by (rule min.strict_coboundedI2)
  have u2lt: "u2 < length s" unfolding u2_def using pred by (rule min.strict_coboundedI2)
  have lu1: "l1 \<le> u1" unfolding u1_def using l1lt by simp
  have lu2: "l2 \<le> u2" unfolding u2_def using l2lt by simp
  have s1: "s ! l1 \<le> s ! u1" by (rule sorted_nth_mono [OF srt lu1 u1lt])
  have s2: "s ! l2 \<le> s ! u2" by (rule sorted_nth_mono [OF srt lu2 u2lt])
  have goal: "s ! l1 + (s ! u1 - s ! l1) * g1 \<le> s ! l2 + (s ! u2 - s ! l2) * g2"
  proof (cases "l1 = l2")
    case True
    then have u: "u1 = u2" unfolding u1_def u2_def by simp
    have "g1 \<le> g2" unfolding g1_def g2_def True using h(2) by simp
    then have "(s ! u2 - s ! l2) * g1 \<le> (s ! u2 - s ! l2) * g2"
      using s2 by (intro mult_left_mono) simp_all
    then show ?thesis unfolding True u by simp
  next
    case False
    with l12 have lt: "l1 < l2" by simp
    have "(s ! u1 - s ! l1) * g1 \<le> (s ! u1 - s ! l1) * 1"
      using s1 g1b(2) by (intro mult_left_mono) simp_all
    then have a: "s ! l1 + (s ! u1 - s ! l1) * g1 \<le> s ! u1" by simp
    have "u1 \<le> l2" unfolding u1_def using lt by simp
    then have b: "s ! u1 \<le> s ! l2" by (rule sorted_nth_mono [OF srt _ l2lt])
    have "0 \<le> (s ! u2 - s ! l2) * g2"
      using s2 g2b(1) by (intro mult_nonneg_nonneg) simp_all
    then have c: "s ! l2 \<le> s ! l2 + (s ! u2 - s ! l2) * g2" by simp
    from a b c show ?thesis by linarith
  qed
  then show ?thesis
    unfolding l1_def l2_def u1_def u2_def g1_def g2_def .
qed

lemma percentile_mono:
  assumes ne: "arr \<noteq> []" and q: "0 \<le> q1" "q1 \<le> q2" "q2 \<le> 100"
  shows "\<exists>a b. percentile arr q1 = Some a \<and> percentile arr q2 = Some b \<and> a \<le> b"
proof -
  let ?s = "sort arr"
  have n: "0 < length ?s" using ne by simp
  have srt: "sorted ?s" by simp
  have m: "0 \<le> real (length ?s - 1)" by simp
  have h1: "0 \<le> q1 / 100 * real (length ?s - 1)" using q(1) by simp
  have h12: "q1 / 100 * real (length ?s - 1) \<le> q2 / 100 * real (length ?s - 1)"
    using q(2) by (intro mult_right_mono) simp_all
  have "q2 / 100 * real (length ?s - 1) \<le> 1 * real (length ?s - 1)"
    using q(3) by (intro mult_right_mono) simp_all
  then have h2: "q2 / 100 * real (length ?s - 1) \<le> real (length ?s - 1)" by simp
  note le = interp_mono [OF srt n h1 h12 h2]
  show ?thesis
    unfolding percentile_def Let_def using ne le by simp
qed

lemma percentile_replicate:
  assumes n: "0 < n" and q: "0 \<le> q" "q \<le> 100"
  shows "percentile (replicate n x) q = Some x"
proof -
  have s: "sort (replicate n x) = replicate n x"
    by (rule sorted_sort_id) (simp add: sorted_replicate)
  have h0: "0 \<le> q / 100 * real (n - 1)" using q(1) by simp
  have "q / 100 * real (n - 1) \<le> 1 * real (n - 1)"
    using q(2) by (intro mult_right_mono) simp_all
  then have "q / 100 * real (n - 1) \<le> real_of_int (int (n - 1))" by simp
  then have "\<lfloor>q / 100 * real (n - 1)\<rfloor> \<le> \<lfloor>real_of_int (int (n - 1))\<rfloor>" by (rule floor_mono)
  then have "\<lfloor>q / 100 * real (n - 1)\<rfloor> \<le> int (n - 1)" by (simp only: floor_of_int)
  then have lo: "nat \<lfloor>q / 100 * real (n - 1)\<rfloor> < n" using n by linarith
  have "n - 1 < n" using n by simp
  then have hi: "min (nat \<lfloor>q / 100 * real (n - 1)\<rfloor> + 1) (n - 1) < n"
    by (rule min.strict_coboundedI2)
  have ne: "replicate n x \<noteq> []" using n by simp
  show ?thesis
    unfolding percentile_def Let_def s using ne lo hi by simp
qed

lemma entities_set: "set (entities df) = b_sec_ejec ` set df"
  unfolding entities_def drop_duplicates_set by simp

lemma bootstrap_replicate_full:
  assumes "set (entities df_24) \<subseteq> set (fst sample)" "set (entities df_25) \<subseteq> set (snd sample)"
  shows "bootstrap_replicate df_24 df_25 sample = oaxaca_aggregate_single df_24 df_25"
proof -
  have a: "[r \<leftarrow> df_24. b_sec_ejec r \<in> set (fst sample)] = df_24"
    using assms(1) unfolding entities_set by (intro filter_True) auto
  have b: "[r \<leftarrow> df_25. b_sec_ejec r \<in> set (snd sample)] = df_25"
    using assms(2) unfolding entities_set by (intro filter_True) auto
  show ?thesis by (simp add: bootstrap_replicate_def Let_def a b)
qed

lemma ci_ordered:
  assumes "arr \<noteq> []"
  shows "\<exists>l h. pp (percentile arr 2.5) = Some l \<and> pp (percentile arr 97.5) = Some h \<and> l \<le> h"
proof -
  from percentile_mono [OF assms, of "2.5" "97.5"] obtain a b
    where a: "percentile arr 2.5 = Some a" and b: "percentile arr 97.5 = Some b" and le: "a \<le> b"
    by auto
  from le have "round2 (a * 100) \<le> round2 (b * 100)" by (intro round2_mono) simp
  then show ?thesis unfolding pp_def a b by simp
qed

lemma ci_replicate:
  assumes "0 < n"
  shows "pp (percentile (replicate n x) 2.5) = Some (round2 (x * 100))"
    "pp (percentile (replicate n x) 97.5) = Some (round2 (x * 100))"
  unfolding pp_def by (simp_all add: percentile_replicate [OF assms])

lemma map_upt_const:
  assumes "\<And>k. k < n \<Longrightarrow> f k = c"
  shows "map f [0..<n] = replicate n c"
  using assms by (intro nth_equalityI) simp_all

lemma run_bootstrap_fields:
  fixes panel :: "'a t1_cmn_row_scheme list"
    and choice :: "nat \<Rightarrow> string option list \<times> string option list" and n_boot :: nat
  defines "df_24 \<equiv> [r \<leftarrow> panel. b_anio r = 2024]" and "df_25 \<equiv> [r \<leftarrow> panel. b_anio r = 2025]"
  defines "boots \<equiv> map (\<lambda>k. bootstrap_replicate df_24 df_25 (choice k)) [0..<n_boot]"
  defines "res \<equiv> run_bootstrap_oaxaca choice panel n_boot"
  shows "delta_total_pp res = round2 (fst (oaxaca_aggregate_single df_24 df_25) * 100)"
    "delta_behavior_pp res = round2 (fst (snd (oaxaca_aggregate_single df_24 df_25)) * 100)"
    "delta_composition_pp res = round2 (snd (snd (oaxaca_aggregate_single df_24 df_25)) * 100)"
    "delta_total_ci95_low res = pp (percentile (map fst boots) 2.5)"
    "delta_total_ci95_high res = pp (percentile (map fst boots) 97.5)"
    "delta_behavior_ci95_low res = pp (percentile (map (\<lambda>b. fst (snd b)) boots) 2.5)"
    "delta_behavior_ci95_high res = pp (percentile (map (\<lambda>b. fst (snd b)) boots) 97.5)"
    "delta_composition_ci95_low res = pp (percentile (map (\<lambda>b. snd (snd b)) boots) 2.5)"
    "delta_composition_ci95_high res = pp (percentile (map (\<lambda>b. snd (snd b)) boots) 97.5)"
  unfolding res_def boots_def df_24_def df_25_def run_bootstrap_oaxaca_def Let_def
  by simp_all

text \<open>
  C7 (amended). With at least one bootstrap iteration, each of the three intervals returned
  by \<^verbatim>\<open>run_bootstrap_oaxaca\<close> is ordered: its lower end is at most its upper end. When
  every iteration draws every entity of 2024 and every entity of 2025, every replicate is the
  point estimate and both ends of each interval are the point estimate. The interval need
  not contain the point estimate otherwise.
\<close>

theorem bootstrap_ci_ordered:
  "(0 < n_boot \<longrightarrow>
      (\<exists>l h. delta_total_ci95_low (run_bootstrap_oaxaca choice panel n_boot) = Some l \<and>
             delta_total_ci95_high (run_bootstrap_oaxaca choice panel n_boot) = Some h \<and> l \<le> h) \<and>
      (\<exists>l h. delta_behavior_ci95_low (run_bootstrap_oaxaca choice panel n_boot) = Some l \<and>
             delta_behavior_ci95_high (run_bootstrap_oaxaca choice panel n_boot) = Some h \<and> l \<le> h) \<and>
      (\<exists>l h. delta_composition_ci95_low (run_bootstrap_oaxaca choice panel n_boot) = Some l \<and>
             delta_composition_ci95_high (run_bootstrap_oaxaca choice panel n_boot) = Some h \<and>
             l \<le> h)) \<and>
   (0 < n_boot \<and>
    (\<forall>k < n_boot.
       set (entities [r \<leftarrow> panel. b_anio r = 2024]) \<subseteq> set (fst (choice k)) \<and>
       set (entities [r \<leftarrow> panel. b_anio r = 2025]) \<subseteq> set (snd (choice k))) \<longrightarrow>
      delta_total_ci95_low (run_bootstrap_oaxaca choice panel n_boot) =
        Some (delta_total_pp (run_bootstrap_oaxaca choice panel n_boot)) \<and>
      delta_total_ci95_high (run_bootstrap_oaxaca choice panel n_boot) =
        Some (delta_total_pp (run_bootstrap_oaxaca choice panel n_boot)) \<and>
      delta_behavior_ci95_low (run_bootstrap_oaxaca choice panel n_boot) =
        Some (delta_behavior_pp (run_bootstrap_oaxaca choice panel n_boot)) \<and>
      delta_behavior_ci95_high (run_bootstrap_oaxaca choice panel n_boot) =
        Some (delta_behavior_pp (run_bootstrap_oaxaca choice panel n_boot)) \<and>
      delta_composition_ci95_low (run_bootstrap_oaxaca choice panel n_boot) =
        Some (delta_composition_pp (run_bootstrap_oaxaca choice panel n_boot)) \<and>
      delta_composition_ci95_high (run_bootstrap_oaxaca choice panel n_boot) =
        Some (delta_composition_pp (run_bootstrap_oaxaca choice panel n_boot)))"
proof (intro conjI impI)
  let ?df_24 = "[r \<leftarrow> panel. b_anio r = 2024]" and ?df_25 = "[r \<leftarrow> panel. b_anio r = 2025]"
  let ?boots = "map (\<lambda>k. bootstrap_replicate ?df_24 ?df_25 (choice k)) [0..<n_boot]"
  {
    assume n: "0 < n_boot"
    then have ne: "map fst ?boots \<noteq> []" "map (\<lambda>b. fst (snd b)) ?boots \<noteq> []"
      "map (\<lambda>b. snd (snd b)) ?boots \<noteq> []"
      by simp_all
    show "\<exists>l h. delta_total_ci95_low (run_bootstrap_oaxaca choice panel n_boot) = Some l \<and>
             delta_total_ci95_high (run_bootstrap_oaxaca choice panel n_boot) = Some h \<and> l \<le> h"
      unfolding run_bootstrap_fields by (rule ci_ordered [OF ne(1)])
    show "\<exists>l h. delta_behavior_ci95_low (run_bootstrap_oaxaca choice panel n_boot) = Some l \<and>
             delta_behavior_ci95_high (run_bootstrap_oaxaca choice panel n_boot) = Some h \<and> l \<le> h"
      unfolding run_bootstrap_fields by (rule ci_ordered [OF ne(2)])
    show "\<exists>l h. delta_composition_ci95_low (run_bootstrap_oaxaca choice panel n_boot) = Some l \<and>
             delta_composition_ci95_high (run_bootstrap_oaxaca choice panel n_boot) = Some h \<and>
             l \<le> h"
      unfolding run_bootstrap_fields by (rule ci_ordered [OF ne(3)])
  }
  assume h: "0 < n_boot \<and>
    (\<forall>k < n_boot.
       set (entities ?df_24) \<subseteq> set (fst (choice k)) \<and>
       set (entities ?df_25) \<subseteq> set (snd (choice k)))"
  then have n: "0 < n_boot" by (rule conjunct1)
  have full: "bootstrap_replicate ?df_24 ?df_25 (choice k) = oaxaca_aggregate_single ?df_24 ?df_25"
    if "k < n_boot" for k
    using h [THEN conjunct2, THEN spec, THEN mp, OF that]
    by (intro bootstrap_replicate_full) simp_all
  have boots: "?boots = replicate n_boot (oaxaca_aggregate_single ?df_24 ?df_25)"
    by (rule map_upt_const) (rule full)
  show "delta_total_ci95_low (run_bootstrap_oaxaca choice panel n_boot) =
        Some (delta_total_pp (run_bootstrap_oaxaca choice panel n_boot))"
    unfolding run_bootstrap_fields boots map_replicate by (simp only: ci_replicate [OF n])
  show "delta_total_ci95_high (run_bootstrap_oaxaca choice panel n_boot) =
        Some (delta_total_pp (run_bootstrap_oaxaca choice panel n_boot))"
    unfolding run_bootstrap_fields boots map_replicate by (simp only: ci_replicate [OF n])
  show "delta_behavior_ci95_low (run_bootstrap_oaxaca choice panel n_boot) =
        Some (delta_behavior_pp (run_bootstrap_oaxaca choice panel n_boot))"
    unfolding run_bootstrap_fields boots map_replicate by (simp only: ci_replicate [OF n])
  show "delta_behavior_ci95_high (run_bootstrap_oaxaca choice panel n_boot) =
        Some (delta_behavior_pp (run_bootstrap_oaxaca choice panel n_boot))"
    unfolding run_bootstrap_fields boots map_replicate by (simp only: ci_replicate [OF n])
  show "delta_composition_ci95_low (run_bootstrap_oaxaca choice panel n_boot) =
        Some (delta_composition_pp (run_bootstrap_oaxaca choice panel n_boot))"
    unfolding run_bootstrap_fields boots map_replicate by (simp only: ci_replicate [OF n])
  show "delta_composition_ci95_high (run_bootstrap_oaxaca choice panel n_boot) =
        Some (delta_composition_pp (run_bootstrap_oaxaca choice panel n_boot))"
    unfolding run_bootstrap_fields boots map_replicate by (simp only: ci_replicate [OF n])
qed

lemma boot_example_frames:
  "[r \<leftarrow> boot_panel_example. b_anio r = 2024] =
     [t1c_of ''300001'' 2024 ''ALWAYS_IN'' 0, t1c_of ''300002'' 2024 ''ALWAYS_IN'' 0]"
  "[r \<leftarrow> boot_panel_example. b_anio r = 2025] =
     [t1c_of ''300001'' 2025 ''ALWAYS_IN'' 1, t1c_of ''300002'' 2025 ''ALWAYS_IN'' 0]"
  by (simp_all add: boot_panel_example_def t1c_of_def)

lemma boot_example_entities:
  "entities [r \<leftarrow> boot_panel_example. b_anio r = 2024] = [Some ''300001'', Some ''300002'']"
  "entities [r \<leftarrow> boot_panel_example. b_anio r = 2025] = [Some ''300001'', Some ''300002'']"
  unfolding boot_example_frames by (simp_all add: entities_def t1c_of_def)

lemma boot_example_point:
  "oaxaca_aggregate_single [r \<leftarrow> boot_panel_example. b_anio r = 2024]
      [r \<leftarrow> boot_panel_example. b_anio r = 2025] = (1 / 2, 1 / 2, 0)"
  unfolding boot_example_frames
  by (simp add: oaxaca_aggregate_single_def Let_def mean_or_zero_def t1c_of_def)

lemma boot_example_replicate:
  "bootstrap_replicate [r \<leftarrow> boot_panel_example. b_anio r = 2024]
      [r \<leftarrow> boot_panel_example. b_anio r = 2025] (choice_seed_42 0) = (1, 1, 0)"
  unfolding boot_example_frames
  by (simp add: bootstrap_replicate_def choice_seed_42_def oaxaca_aggregate_single_def Let_def
      mean_or_zero_def t1c_of_def)

lemma round2_values: "round2 50 = 50" "round2 100 = 100" "round2 0 = 0"
  by (simp_all add: round2_def round_half_even_def Let_def)

theorem bootstrap_ci_ordered_witness:
  "0 < (2::nat) \<and>
   delta_total_pp (run_bootstrap_oaxaca choice_all boot_panel_example 2) = 50 \<and>
   delta_total_ci95_low (run_bootstrap_oaxaca choice_all boot_panel_example 2) = Some 50 \<and>
   delta_total_ci95_high (run_bootstrap_oaxaca choice_all boot_panel_example 2) = Some 50 \<and>
   (\<exists>l h. delta_total_ci95_low (run_bootstrap_oaxaca choice_all boot_panel_example 2) = Some l \<and>
          delta_total_ci95_high (run_bootstrap_oaxaca choice_all boot_panel_example 2) = Some h \<and>
          l \<le> h)"
proof -
  note inst = bootstrap_ci_ordered [of 2 choice_all boot_panel_example]
  have n: "0 < (2::nat)" by simp
  have cover: "\<forall>k < 2.
       set (entities [r \<leftarrow> boot_panel_example. b_anio r = 2024]) \<subseteq> set (fst (choice_all k)) \<and>
       set (entities [r \<leftarrow> boot_panel_example. b_anio r = 2025]) \<subseteq> set (snd (choice_all k))"
    unfolding boot_example_entities by (simp add: choice_all_def)
  have p: "delta_total_pp (run_bootstrap_oaxaca choice_all boot_panel_example 2) = 50"
    unfolding run_bootstrap_fields boot_example_point by (simp add: round2_values)
  note eq = inst [THEN conjunct2, THEN mp, OF conjI [OF n cover]]
  have l: "delta_total_ci95_low (run_bootstrap_oaxaca choice_all boot_panel_example 2) = Some 50"
    using eq [THEN conjunct1] unfolding p .
  have h: "delta_total_ci95_high (run_bootstrap_oaxaca choice_all boot_panel_example 2) = Some 50"
    using eq [THEN conjunct2, THEN conjunct1] unfolding p .
  note ord = inst [THEN conjunct1, THEN mp, OF n, THEN conjunct1]
  show ?thesis by (intro conjI n p l h ord)
qed

text \<open>
  One iteration under seed 42 on the example panel: the resample of 2025 holds entity 300001
  alone, the replicate is 100 percentage points, and the interval from 100 to 100 does not
  contain the point estimate of 50.
\<close>

theorem bootstrap_ci_counterexample:
  "delta_total_pp (run_bootstrap_oaxaca choice_seed_42 boot_panel_example 1) = 50 \<and>
   delta_total_ci95_low (run_bootstrap_oaxaca choice_seed_42 boot_panel_example 1) = Some 100 \<and>
   delta_total_ci95_high (run_bootstrap_oaxaca choice_seed_42 boot_panel_example 1) = Some 100 \<and>
   delta_behavior_pp (run_bootstrap_oaxaca choice_seed_42 boot_panel_example 1) = 50 \<and>
   delta_behavior_ci95_low (run_bootstrap_oaxaca choice_seed_42 boot_panel_example 1) = Some 100"
  unfolding run_bootstrap_fields boot_example_point
  by (simp add: boot_example_replicate percentile_def pp_def round2_values)

end
